theory Spec2Isabelle
  imports Main "HOL-Library.AList"
begin

section \<open>Overview dashboard (client/src/pages/MyOverview.jsx)\<close>

subsection \<open>Dates as the dashboard compares them\<close>

text \<open>
  A JavaScript \<open>Date\<close> is either invalid or a point in time. A valid one is kept as the
  local calendar day (a day number) and the milliseconds elapsed since that day's local
  midnight. \<open>parseFormattedDate\<close> builds \<open>new Date(year, monthNumber, day)\<close>, which is the
  local midnight of a calendar day, or an invalid date when the text does not have the
  shape \<open>"Mon D YYYY"\<close>; the field \<open>dateDue\<close> of a record below holds the \<open>Date\<close> that
  \<open>parseFormattedDate\<close> returns for the record's text.
\<close>

datatype jsdate = InvalidDate | Date int nat

datatype datestring = InvalidDateString | DayString int

text \<open>\<open>toDateString()\<close>: the calendar day only; \<open>"Invalid Date"\<close> for an invalid date.\<close>

fun toDateString :: "jsdate \<Rightarrow> datestring" where
  "toDateString InvalidDate = InvalidDateString"
| "toDateString (Date d ms) = DayString d"

text \<open>\<open>valueOf()\<close>: milliseconds on the time line, \<open>None\<close> for \<open>NaN\<close>. Every local day
  is taken to last 24 hours; the one day a year that lasts 25, when daylight saving
  ends, is not told apart.\<close>

fun valueOf :: "jsdate \<Rightarrow> int option" where
  "valueOf InvalidDate = None"
| "valueOf (Date d ms) = Some (d * 86400000 + int ms)"

text \<open>The relational operators on two dates: a comparison with \<open>NaN\<close> is false.\<close>

definition date_gt :: "jsdate \<Rightarrow> jsdate \<Rightarrow> bool" where
  "date_gt a b = (case (valueOf a, valueOf b) of (Some x, Some y) \<Rightarrow> x > y | _ \<Rightarrow> False)"

definition date_lt :: "jsdate \<Rightarrow> jsdate \<Rightarrow> bool" where
  "date_lt a b = (case (valueOf a, valueOf b) of (Some x, Some y) \<Rightarrow> x < y | _ \<Rightarrow> False)"

definition date_le :: "jsdate \<Rightarrow> jsdate \<Rightarrow> bool" where
  "date_le a b = (case (valueOf a, valueOf b) of (Some x, Some y) \<Rightarrow> x \<le> y | _ \<Rightarrow> False)"

subsection \<open>The records the dashboard receives\<close>

record dated =
  dateDue :: jsdate

record projectView = dated +
  projectStatus :: string

record taskView = dated +
  taskStatus :: string

subsection \<open>Status tallies\<close>

text \<open>
  The accumulator \<open>{}\<close> of the two \<open>reduce\<close> calls is an object used as a dictionary
  from status to count. Its own properties are kept as an association list in insertion
  order; the value of one is a number, a count or \<open>NaN\<close>. The sums below do not depend on
  the order in which \<open>Object.keys\<close> lists the keys.

  \<open>{}\<close> is not empty to a read: it inherits the properties of \<open>Object.prototype\<close>, the
  functions under the names of \<open>inheritedFunctions\<close> and the accessor \<open>__proto__\<close>, whose
  value is \<open>Object.prototype\<close> itself. A read \<open>acc[s]\<close> finds an own property first, then
  an inherited one, then gives \<open>undefined\<close>.
\<close>

datatype jsnum = Num nat | NaN

datatype jsval = Undefined | Number jsnum | InheritedFunction | ObjectPrototype

type_synonym counts = "(string \<times> jsnum) list"

definition inheritedFunctions :: "string list" where
  "inheritedFunctions =
     [''constructor'', ''hasOwnProperty'', ''isPrototypeOf'', ''propertyIsEnumerable'',
      ''toLocaleString'', ''toString'', ''valueOf'', ''__defineGetter__'', ''__defineSetter__'',
      ''__lookupGetter__'', ''__lookupSetter__'']"

definition inherited :: "string \<Rightarrow> bool" where
  "inherited s = (s = ''__proto__'' \<or> s \<in> set inheritedFunctions)"

definition getProp :: "counts \<Rightarrow> string \<Rightarrow> jsval" where
  "getProp acc s =
     (if s = ''__proto__'' then ObjectPrototype
      else case map_of acc s of
             Some v \<Rightarrow> Number v
           | None \<Rightarrow> if s \<in> set inheritedFunctions then InheritedFunction else Undefined)"

text \<open>What \<open>if (v)\<close> takes for true: a number other than \<open>0\<close> and \<open>NaN\<close>, a function, an
  object.\<close>

fun truthy :: "jsval \<Rightarrow> bool" where
  "truthy Undefined = False"
| "truthy (Number (Num n)) = (n \<noteq> 0)"
| "truthy (Number NaN) = False"
| "truthy InheritedFunction = True"
| "truthy ObjectPrototype = True"

text \<open>The value that \<open>acc[s]++\<close> stores: the old value as a number, plus one. A function
  and \<open>Object.prototype\<close> are \<open>NaN\<close> as numbers, and so is \<open>undefined\<close>.\<close>

fun increment :: "jsval \<Rightarrow> jsnum" where
  "increment (Number (Num n)) = Num (n + 1)"
| "increment (Number NaN) = NaN"
| "increment Undefined = NaN"
| "increment InheritedFunction = NaN"
| "increment ObjectPrototype = NaN"

text \<open>An assignment \<open>acc[s] = v\<close> of a number makes or overwrites an own property, also
  over an inherited function; under the name \<open>__proto__\<close> it calls the inherited setter,
  which ignores a number.\<close>

definition setProp :: "counts \<Rightarrow> string \<Rightarrow> jsnum \<Rightarrow> counts" where
  "setProp acc s v = (if s = ''__proto__'' then acc else AList.update s v acc)"

text \<open>One step of the reducer: \<open>if (acc[s]) { acc[s]++ } else { acc[s] = 1 }\<close>.\<close>

definition tallyStep :: "counts \<Rightarrow> string \<Rightarrow> counts" where
  "tallyStep acc s =
     (if truthy (getProp acc s) then setProp acc s (increment (getProp acc s))
      else setProp acc s (Num 1))"

definition projectStatusCounts :: "projectView list \<Rightarrow> counts" where
  "projectStatusCounts projects = foldl (\<lambda>acc project. tallyStep acc (projectStatus project)) [] projects"

definition totalProjectsCount :: "projectView list \<Rightarrow> nat" where
  "totalProjectsCount projects = length projects"

definition taskStatusCounts :: "taskView list \<Rightarrow> counts" where
  "taskStatusCounts tasks = foldl (\<lambda>acc task. tallyStep acc (taskStatus task)) [] tasks"

definition totalTasksCount :: "taskView list \<Rightarrow> nat" where
  "totalTasksCount tasks = length tasks"

text \<open>The sum of two numbers: \<open>NaN\<close> when one of them is.\<close>

fun addNum :: "jsnum \<Rightarrow> jsnum \<Rightarrow> jsnum" where
  "addNum (Num a) (Num b) = Num (a + b)"
| "addNum NaN b = NaN"
| "addNum a NaN = NaN"

text \<open>
  \<open>Object.keys(taskStatusCounts).filter((status) => status !== "Completed")
     .reduce((acc, status) => acc + taskStatusCounts[status], 0)\<close>.
  \<open>Object.keys\<close> lists the own keys, so \<open>taskStatusCounts[status]\<close> reads the own property
  of that key; \<open>ownValue\<close> is that read, \<open>NaN\<close> in a sum where there is no such property.
\<close>

definition ownValue :: "counts \<Rightarrow> string \<Rightarrow> jsnum" where
  "ownValue cs status = (case map_of cs status of Some v \<Rightarrow> v | None \<Rightarrow> NaN)"

definition incompleteOf :: "counts \<Rightarrow> jsnum" where
  "incompleteOf cs =
     foldl (\<lambda>acc status. addNum acc (ownValue cs status)) (Num 0)
       (filter (\<lambda>status. status \<noteq> ''Completed'') (map fst cs))"

definition incompleteTasksCount :: "taskView list \<Rightarrow> jsnum" where
  "incompleteTasksCount tasks = incompleteOf (taskStatusCounts tasks)"

text \<open>\<open>taskStatusCounts.Completed || 0\<close>\<close>

definition completedTasksCount :: "taskView list \<Rightarrow> jsnum" where
  "completedTasksCount tasks =
     (case getProp (taskStatusCounts tasks) ''Completed'' of
        Number v \<Rightarrow> if truthy (Number v) then v else Num 0
      | _ \<Rightarrow> Num 0)"

text \<open>
  Words for the properties of the tallies: the sum of the counts of a tally; the plain
  counting step on numbers, which is what the reducer does for a status that names no
  inherited property; and a tally of numbers as the object that holds them.
\<close>

definition sumCounts :: "counts \<Rightarrow> jsnum" where
  "sumCounts cs = foldl addNum (Num 0) (map snd cs)"

definition countStep :: "(string \<times> nat) list \<Rightarrow> string \<Rightarrow> (string \<times> nat) list" where
  "countStep acc s = AList.update s (case map_of acc s of Some c \<Rightarrow> c + 1 | None \<Rightarrow> 1) acc"

definition numsOf :: "(string \<times> nat) list \<Rightarrow> counts" where
  "numsOf acc = map (\<lambda>(k, n). (k, Num n)) acc"

subsection \<open>Nearest due date\<close>

text \<open>
  The selection is written twice in the page, once over \<open>projectsData.user.projects\<close>
  and once over \<open>projectsData.user.tasks\<close>, with the same text; it is modelled once,
  over any record with a \<open>dateDue\<close>, and instantiated for both lists. \<open>today\<close> is
  \<open>new Date()\<close>: the current day and the time elapsed in it.
\<close>

text \<open>\<open>parseFormattedDate(r.dateDue).toDateString() === today.toDateString()\<close>\<close>

definition isDueToday :: "jsdate \<Rightarrow> 'a dated_scheme \<Rightarrow> bool" where
  "isDueToday today r = (toDateString (dateDue r) = toDateString today)"

text \<open>\<open>records.some(...)\<close>\<close>

definition hasDueDateToday :: "jsdate \<Rightarrow> 'a dated_scheme list \<Rightarrow> bool" where
  "hasDueDateToday today records = list_ex (isDueToday today) records"

text \<open>The callback of \<open>reduce\<close>; \<open>None\<close> is the initial \<open>null\<close>.\<close>

definition closestStep ::
  "jsdate \<Rightarrow> 'a dated_scheme option \<Rightarrow> 'a dated_scheme \<Rightarrow> 'a dated_scheme option" where
  "closestStep today closest current =
     (let currentDueDate = dateDue current in
      if toDateString currentDueDate = toDateString today then Some current
      else (case closest of
              None \<Rightarrow> Some current
            | Some closestRecord \<Rightarrow>
                (let closestDueDate = dateDue closestRecord;
                     isCurrentClosest =
                       (date_gt currentDueDate today \<and>
                        (date_lt currentDueDate closestDueDate \<or> date_le closestDueDate today))
                 in if isCurrentClosest then Some current else Some closestRecord)))"

definition closestDueDate :: "jsdate \<Rightarrow> 'a dated_scheme list \<Rightarrow> 'a dated_scheme option" where
  "closestDueDate today records = foldl (closestStep today) None records"

text \<open>\<open>hasDueDateToday ? records.find(...) : closestDueDate\<close>\<close>

definition recordToReturn :: "jsdate \<Rightarrow> 'a dated_scheme list \<Rightarrow> 'a dated_scheme option" where
  "recordToReturn today records =
     (if hasDueDateToday today records then List.find (isDueToday today) records
      else closestDueDate today records)"

definition projectToReturn :: "jsdate \<Rightarrow> projectView list \<Rightarrow> projectView option" where
  "projectToReturn today projects = recordToReturn today projects"

definition taskToReturn :: "jsdate \<Rightarrow> taskView list \<Rightarrow> taskView option" where
  "taskToReturn today tasks = recordToReturn today tasks"

text \<open>
  What the card prints:
  \<open>r && date(r).toDateString() === today.toDateString() ? "TODAY"
     : r ? date(r).toDateString() : "No upcoming due date"\<close>.
\<close>

datatype dueText = TODAY | DueOn datestring | NoUpcomingDueDate

definition dueLabel :: "jsdate \<Rightarrow> 'a dated_scheme option \<Rightarrow> dueText" where
  "dueLabel today r =
     (case r of
        Some x \<Rightarrow>
          if toDateString (dateDue x) = toDateString today then TODAY
          else DueOn (toDateString (dateDue x))
      | None \<Rightarrow> NoUpcomingDueDate)"

definition nextProjectDue :: "jsdate \<Rightarrow> projectView list \<Rightarrow> dueText" where
  "nextProjectDue today projects = dueLabel today (projectToReturn today projects)"

definition nextTaskDue :: "jsdate \<Rightarrow> taskView list \<Rightarrow> dueText" where
  "nextTaskDue today tasks = dueLabel today (taskToReturn today tasks)"

text \<open>
  Words for the properties of the selection. A record's due date is well formed when it
  is the local midnight of a calendar day, \<open>dayOf\<close> is that day, and \<open>nearestFuture\<close>
  says that a record of the list is the first one with the earliest day after \<open>t\<close>.
\<close>

definition atMidnight :: "'a dated_scheme \<Rightarrow> bool" where
  "atMidnight r = (case dateDue r of Date d ms \<Rightarrow> ms = 0 | InvalidDate \<Rightarrow> False)"

definition dayOf :: "'a dated_scheme \<Rightarrow> int" where
  "dayOf r = (case dateDue r of Date d ms \<Rightarrow> d | InvalidDate \<Rightarrow> 0)"

definition nearestFuture :: "int \<Rightarrow> 'a dated_scheme list \<Rightarrow> 'a dated_scheme \<Rightarrow> bool" where
  "nearestFuture t rs r \<longleftrightarrow>
     t < dayOf r \<and> (\<forall>x \<in> set rs. t < dayOf x \<longrightarrow> dayOf r \<le> dayOf x) \<and>
     (\<exists>pre post. rs = pre @ r # post \<and> (\<forall>x \<in> set pre. dayOf x \<noteq> dayOf r))"

section \<open>Resolvers\<close>

text \<open>
  The repository holds two versions of the resolver module: \<open>server/schemas/resolvers.js\<close>
  and a second file with the same exports, which adds session checks, error wrapping and
  the back references from users and teams. A function that differs between them is
  modelled twice, with the suffix \<open>_resolvers\<close> for the first file and \<open>_part000\<close> for the
  second; a function whose text is the same in both is modelled once.
\<close>

subsection \<open>Documents, collections and the store\<close>

text \<open>
  Modelled from the spec: the four models of \<open>server/models\<close> (User, Team, Project,
  Task) are not among the source files. Their documents have the fields of the spec's
  data model that the resolvers read and write: a user has an email, a hashed password,
  names, project references, task references and one team reference; a team has member
  references and project references; a project has task references and its team
  association; a task has one \<open>assignedUser\<close> reference.

  Identifiers are the store's object identifiers. A document's scalar fields other than
  the ones a resolver reads are a dictionary from field name to value. A collection
  lists its documents, each with its \<open>_id\<close>, in insertion order. \<open>nextId\<close> is the
  identifier the next \<open>create\<close> assigns: the store never hands out an identifier twice.
\<close>

type_synonym oid = nat

type_synonym fields = "(string \<times> string) list"

record userDoc =
  firstName :: string
  lastName :: string
  email :: string
  password :: string
  userProjects :: "oid list"
  userTasks :: "oid list"
  userTeam :: "oid option"

record teamDoc =
  teamFields :: fields
  teamMembers :: "oid list"
  teamProjects :: "oid list"

text \<open>The second file keeps a project's teams in the field \<open>team\<close> (\<open>projectTeam\<close>), the
  first file in the field \<open>teams\<close> (\<open>projectTeams\<close>).\<close>

record projectDoc =
  projectFields :: fields
  projectTasks :: "oid list"
  projectTeam :: "oid option list"
  projectTeams :: "oid list"

record taskDoc =
  taskFields :: fields
  assignedUser :: "oid option"

record store =
  users :: "(oid \<times> userDoc) list"
  teams :: "(oid \<times> teamDoc) list"
  projects :: "(oid \<times> projectDoc) list"
  tasks :: "(oid \<times> taskDoc) list"
  nextId :: oid

text \<open>What a resolver throws: the sentinel \<open>AuthenticationError\<close>, an \<open>Error\<close> with its
  message, the runtime's \<open>TypeError\<close> on reading a property of \<open>null\<close>, or the store's
  \<open>CastError\<close> for a query whose \<open>_id\<close> is not an object identifier.\<close>

datatype error = AuthenticationError | Error string | TypeError | CastError

text \<open>
  An identifier as a request supplies it: the API's identifiers are text, and the text
  either is the well-formed form of an object identifier or is not. The removals below
  pass what they get to the store, which casts it for the query.
\<close>

datatype idArg = ObjectId oid | Malformed string

subsection \<open>The store's operations\<close>

text \<open>\<open>Model.findById(id)\<close>: the document or \<open>null\<close>.\<close>

definition findById :: "(oid \<times> 'd) list \<Rightarrow> oid \<Rightarrow> 'd option" where
  "findById c i = map_of c i"

text \<open>\<open>doc.save()\<close> of a document that was read from or created in the collection.\<close>

definition save :: "(oid \<times> 'd) list \<Rightarrow> oid \<Rightarrow> 'd \<Rightarrow> (oid \<times> 'd) list" where
  "save c i d = AList.update i d c"

text \<open>\<open>Model.find({ _id: { $in: ids } })\<close>\<close>

definition findIn :: "(oid \<times> 'd) list \<Rightarrow> oid list \<Rightarrow> (oid \<times> 'd) list" where
  "findIn c ids = filter (\<lambda>(i, d). i \<in> set ids) c"

text \<open>\<open>Model.findOneAndUpdate({ _id: id }, update, { new: returnNew })\<close>: the document
  before the update unless \<open>new\<close> is set, \<open>null\<close> when there is none.\<close>

definition findOneAndUpdate ::
  "(oid \<times> 'd) list \<Rightarrow> oid \<Rightarrow> ('d \<Rightarrow> 'd) \<Rightarrow> bool \<Rightarrow> (oid \<times> 'd) list \<times> 'd option" where
  "findOneAndUpdate c i update returnNew =
     (case findById c i of
        None \<Rightarrow> (c, None)
      | Some d \<Rightarrow> (save c i (update d), Some (if returnNew then update d else d)))"

fun deleteOne :: "oid \<Rightarrow> (oid \<times> 'd) list \<Rightarrow> (oid \<times> 'd) list" where
  "deleteOne i [] = []"
| "deleteOne i ((j, d) # c) = (if j = i then c else (j, d) # deleteOne i c)"

text \<open>\<open>Model.findOneAndDelete({ _id: id })\<close>: the deleted document, or \<open>null\<close>; the query
  is rejected with a \<open>CastError\<close>, before it reaches the collection, when \<open>id\<close> is not
  the text of an object identifier.\<close>

definition findOneAndDelete ::
  "(oid \<times> 'd) list \<Rightarrow> idArg \<Rightarrow> error + (oid \<times> 'd) list \<times> 'd option" where
  "findOneAndDelete c id' =
     (case id' of
        Malformed raw \<Rightarrow> Inl CastError
      | ObjectId i \<Rightarrow>
          (case findById c i of
             None \<Rightarrow> Inr (c, None)
           | Some d \<Rightarrow> Inr (deleteOne i c, Some d)))"

text \<open>\<open>$set\<close> on scalar fields: each field of the patch overwrites the document's.\<close>

definition setFields :: "fields \<Rightarrow> fields \<Rightarrow> fields" where
  "setFields patch fs = foldl (\<lambda>acc (k, v). AList.update k v acc) fs patch"

subsection \<open>Session and login\<close>

text \<open>
  \<open>User.findOne({ email })\<close>. The password check \<open>user.isCorrectPassword(password)\<close>
  belongs to the user model, which is not among the source files: it compares the given
  password with the stored salted hash, and is the parameter \<open>isCorrectPassword\<close> (given
  password, stored hash) here; \<open>signToken\<close>, of \<open>utils/auth\<close>, is a parameter as well.
  The first file also expands the references of the user it found (\<open>populate\<close>), which
  reads the store and changes neither the lookup nor the password; reference expansion of
  returned documents is left out throughout.
\<close>

definition findOneByEmail :: "(oid \<times> userDoc) list \<Rightarrow> string \<Rightarrow> (oid \<times> userDoc) option" where
  "findOneByEmail c e = List.find (\<lambda>(i, u). email u = e) c"

definition login ::
  "(string \<Rightarrow> string \<Rightarrow> bool) \<Rightarrow> (oid \<times> userDoc \<Rightarrow> string) \<Rightarrow> store \<Rightarrow> string \<Rightarrow> string
     \<Rightarrow> error + ((oid \<times> userDoc) \<times> string)" where
  "login isCorrectPassword signToken st email' password' =
     (case findOneByEmail (users st) email' of
        None \<Rightarrow> Inl AuthenticationError
      | Some user \<Rightarrow>
          (let corrPassword = isCorrectPassword password' (password (snd user)) in
           if \<not> corrPassword then Inl AuthenticationError
           else Inr (user, signToken user)))"

text \<open>\<open>me\<close> of the second file: \<open>context.user\<close> is the decoded session, if any.\<close>

definition me_part000 :: "oid option \<Rightarrow> store \<Rightarrow> error + (oid \<times> userDoc) option" where
  "me_part000 contextUser st =
     (case contextUser of
        Some uid \<Rightarrow> Inr (map_option (Pair uid) (findById (users st) uid))
      | None \<Rightarrow> Inl AuthenticationError)"

subsection \<open>The query \<open>tasks\<close>\<close>

text \<open>First file: \<open>Task.find({})\<close>, with no look at the session.\<close>

definition tasks_resolvers :: "store \<Rightarrow> (oid \<times> taskDoc) list" where
  "tasks_resolvers st = tasks st"

text \<open>Second file. The body of the \<open>try\<close> block, then the \<open>catch\<close> that replaces whatever
  was thrown in it by \<open>new Error('Failed to fetch tasks')\<close>.\<close>

definition tasks_try :: "oid option \<Rightarrow> store \<Rightarrow> error + (oid \<times> taskDoc) list" where
  "tasks_try contextUser st =
     (case contextUser of
        None \<Rightarrow> Inl AuthenticationError
      | Some uid \<Rightarrow> Inr (filter (\<lambda>(i, t). assignedUser t = Some uid) (tasks st)))"

definition tasks_part000 :: "oid option \<Rightarrow> store \<Rightarrow> error + (oid \<times> taskDoc) list" where
  "tasks_part000 contextUser st =
     (case tasks_try contextUser st of
        Inl e \<Rightarrow> Inl (Error ''Failed to fetch tasks'')
      | Inr found \<Rightarrow> Inr found)"

subsection \<open>\<open>updateUser\<close> and the three removals\<close>

record userPatch =
  upFirstName :: "string option"
  upLastName :: "string option"
  upEmail :: "string option"
  upPassword :: "string option"

definition setUser :: "userPatch \<Rightarrow> userDoc \<Rightarrow> userDoc" where
  "setUser input u =
     u\<lparr>firstName := (case upFirstName input of Some v \<Rightarrow> v | None \<Rightarrow> firstName u),
       lastName := (case upLastName input of Some v \<Rightarrow> v | None \<Rightarrow> lastName u),
       email := (case upEmail input of Some v \<Rightarrow> v | None \<Rightarrow> email u),
       password := (case upPassword input of Some v \<Rightarrow> v | None \<Rightarrow> password u)\<rparr>"

text \<open>First file: \<open>findOneAndUpdate({ _id: userId }, { $set: input }, { new: true })\<close>.\<close>

definition updateUser_resolvers :: "store \<Rightarrow> oid \<Rightarrow> userPatch \<Rightarrow> store \<times> (error + userDoc option)" where
  "updateUser_resolvers st userId input =
     (let (c, user) = findOneAndUpdate (users st) userId (setUser input) True
      in (st\<lparr>users := c\<rparr>, Inr user))"

text \<open>Second file: \<open>if (input.password) input.password = await bcrypt.hash(input.password, 10)\<close>
  (an empty password is falsy and stays as it is), then
  \<open>findOneAndUpdate({ _id: userId }, input)\<close> with no options. \<open>hash\<close> is \<open>bcrypt.hash\<close>.\<close>

definition rehash :: "(string \<Rightarrow> string) \<Rightarrow> userPatch \<Rightarrow> userPatch" where
  "rehash hash input =
     (case upPassword input of
        Some p \<Rightarrow> if p \<noteq> [] then input\<lparr>upPassword := Some (hash p)\<rparr> else input
      | None \<Rightarrow> input)"

definition updateUser_part000 ::
  "(string \<Rightarrow> string) \<Rightarrow> store \<Rightarrow> oid \<Rightarrow> userPatch \<Rightarrow> store \<times> (error + userDoc option)" where
  "updateUser_part000 hash st userId input =
     (let input' = rehash hash input;
          (c, user) = findOneAndUpdate (users st) userId (setUser input') False
      in (st\<lparr>users := c\<rparr>, Inr user))"

text \<open>The removals have the same text in both files: the query's result is returned, with
  no check and no \<open>try\<close>, so what the query throws is what the resolver throws.\<close>

definition removeUser :: "store \<Rightarrow> idArg \<Rightarrow> store \<times> (error + userDoc option)" where
  "removeUser st userId =
     (case findOneAndDelete (users st) userId of
        Inl e \<Rightarrow> (st, Inl e)
      | Inr (c, removed) \<Rightarrow> (st\<lparr>users := c\<rparr>, Inr removed))"

definition removeProject :: "store \<Rightarrow> idArg \<Rightarrow> store \<times> (error + projectDoc option)" where
  "removeProject st projectId =
     (case findOneAndDelete (projects st) projectId of
        Inl e \<Rightarrow> (st, Inl e)
      | Inr (c, removed) \<Rightarrow> (st\<lparr>projects := c\<rparr>, Inr removed))"

definition removeTask :: "store \<Rightarrow> idArg \<Rightarrow> store \<times> (error + taskDoc option)" where
  "removeTask st taskId =
     (case findOneAndDelete (tasks st) taskId of
        Inl e \<Rightarrow> (st, Inl e)
      | Inr (c, removed) \<Rightarrow> (st\<lparr>tasks := c\<rparr>, Inr removed))"

subsection \<open>\<open>addProject\<close>\<close>

text \<open>\<open>Model.create(doc)\<close> stores the document under a new identifier.\<close>

definition createProject :: "store \<Rightarrow> projectDoc \<Rightarrow> oid \<times> store" where
  "createProject st project =
     (nextId st, st\<lparr>projects := projects st @ [(nextId st, project)], nextId := Suc (nextId st)\<rparr>)"

definition createTask :: "store \<Rightarrow> taskDoc \<Rightarrow> oid \<times> store" where
  "createTask st task =
     (nextId st, st\<lparr>tasks := tasks st @ [(nextId st, task)], nextId := Suc (nextId st)\<rparr>)"

text \<open>
  First file. The input names its teams and tasks in \<open>teamIds\<close> and \<open>taskIds\<close>, which are
  not fields of a project: the project is created with its scalar fields, then
  \<open>project.teams\<close> and \<open>project.tasks\<close> are set to the teams and tasks found and the
  project is saved. No team and no user is written.
\<close>

record projectInput_resolvers =
  pirFields :: fields
  teamIds :: "oid list"
  taskIds :: "oid list"

definition addProject_resolvers ::
  "store \<Rightarrow> projectInput_resolvers \<Rightarrow> store \<times> (error + oid \<times> projectDoc)" where
  "addProject_resolvers st input =
     (let (projectId, st1) =
            createProject st
              \<lparr>projectFields = pirFields input, projectTasks = [], projectTeam = [], projectTeams = []\<rparr>;
          foundTeams = findIn (teams st1) (teamIds input);
          foundTasks = findIn (tasks st1) (taskIds input);
          project =
            \<lparr>projectFields = pirFields input, projectTasks = map fst foundTasks, projectTeam = [],
             projectTeams = map fst foundTeams\<rparr>;
          st2 = st1\<lparr>projects := save (projects st1) projectId project\<rparr>
      in (st2, Inr (projectId, project)))"

text \<open>
  Second file: \<open>const { teamId, ...projectData } = input\<close>; an absent \<open>teamId\<close> is
  \<open>None\<close>. Everything runs in a \<open>try\<close> whose \<open>catch\<close> throws
  \<open>new Error(`Failed to create project: ${error.message}`)\<close>; what was written before the
  throw stays written. \<open>User.find\<close> returns a list, which is never falsy, so the throw
  after \<open>if (!users)\<close> is not reached. The loop \<open>for (const user of users)\<close> pushes the
  project onto each user found and saves that user.
\<close>

record projectInput_part000 =
  pipFields :: fields
  teamId :: "oid option"

definition pushProject :: "oid \<Rightarrow> (oid \<times> userDoc) list \<Rightarrow> oid \<times> userDoc \<Rightarrow> (oid \<times> userDoc) list" where
  "pushProject projectId c user =
     save c (fst user) ((snd user)\<lparr>userProjects := userProjects (snd user) @ [projectId]\<rparr>)"

definition addProject_part000 ::
  "store \<Rightarrow> projectInput_part000 \<Rightarrow> store \<times> (error + oid \<times> projectDoc)" where
  "addProject_part000 st input =
     (let project =
            \<lparr>projectFields = pipFields input, projectTasks = [], projectTeam = [teamId input],
             projectTeams = []\<rparr>;
          (projectId, st1) = createProject st project
      in case teamId input of
           None \<Rightarrow> (st1, Inr (projectId, project))
         | Some tid \<Rightarrow>
             (case findById (teams st1) tid of
                None \<Rightarrow> (st1, Inl (Error ''Failed to create project: Team not found''))
              | Some team \<Rightarrow>
                  (let team' = team\<lparr>teamProjects := teamProjects team @ [projectId]\<rparr>;
                       st2 = st1\<lparr>teams := save (teams st1) tid team'\<rparr>;
                       found = findIn (users st2) (teamMembers team');
                       st3 = st2\<lparr>users := foldl (pushProject projectId) (users st2) found\<rparr>
                   in (st3, Inr (projectId, project)))))"

subsection \<open>\<open>addTask\<close>\<close>

text \<open>The input's \<open>assignedUserId\<close> is not a field of a task: a created task has no
  assignee until the resolver sets one.\<close>

record taskInput =
  tiFields :: fields
  assignedUserId :: oid

text \<open>
  First file: no check of the project, so a missing project is a \<open>TypeError\<close> at
  \<open>project.tasks\<close>, after the task was created. The user is looked up for the result
  only and may be \<open>null\<close>.
\<close>

definition addTask_resolvers ::
  "store \<Rightarrow> oid \<Rightarrow> taskInput \<Rightarrow> store \<times> (error + (oid \<times> taskDoc) \<times> (oid \<times> userDoc) option)" where
  "addTask_resolvers st projectId input =
     (let task = \<lparr>taskFields = tiFields input, assignedUser = None\<rparr>;
          (taskId, st1) = createTask st task
      in case findById (projects st1) projectId of
           None \<Rightarrow> (st1, Inl TypeError)
         | Some project \<Rightarrow>
             (let project' = project\<lparr>projectTasks := projectTasks project @ [taskId]\<rparr>;
                  st2 = st1\<lparr>projects := save (projects st1) projectId project'\<rparr>;
                  user = map_option (Pair (assignedUserId input))
                           (findById (users st2) (assignedUserId input))
              in (st2, Inr ((taskId, task), user))))"

text \<open>
  Second file, in a \<open>try\<close> whose \<open>catch\<close> throws
  \<open>new Error(`Failed to create task: ${error.message}`)\<close>.
\<close>

definition addTask_part000 ::
  "store \<Rightarrow> oid \<Rightarrow> taskInput \<Rightarrow> store \<times> (error + (oid \<times> taskDoc) \<times> (oid \<times> userDoc))" where
  "addTask_part000 st projectId input =
     (let task = \<lparr>taskFields = tiFields input, assignedUser = None\<rparr>;
          (taskId, st1) = createTask st task
      in case findById (projects st1) projectId of
           None \<Rightarrow> (st1, Inl (Error ''Failed to create task: Project not found''))
         | Some project \<Rightarrow>
             (let project' = project\<lparr>projectTasks := projectTasks project @ [taskId]\<rparr>;
                  st2 = st1\<lparr>projects := save (projects st1) projectId project'\<rparr>
              in case findById (users st2) (assignedUserId input) of
                   None \<Rightarrow> (st2, Inl (Error ''Failed to create task: Assigned user not found''))
                 | Some user \<Rightarrow>
                     (let task' = task\<lparr>assignedUser := Some (assignedUserId input)\<rparr>;
                          st3 = st2\<lparr>tasks := save (tasks st2) taskId task'\<rparr>;
                          user' = user\<lparr>userTasks := userTasks user @ [taskId]\<rparr>;
                          st4 = st3\<lparr>users := save (users st3) (assignedUserId input) user'\<rparr>
                      in (st4, Inr ((taskId, task'), (assignedUserId input, user'))))))"

subsection \<open>\<open>updateTask\<close>\<close>

text \<open>The patch of \<open>updateTask\<close>: scalar fields to set, and an assignee when the caller
  supplies one.\<close>

record taskPatch =
  tpFields :: fields
  tpAssignedUser :: "oid option"

definition setTask :: "taskPatch \<Rightarrow> taskDoc \<Rightarrow> taskDoc" where
  "setTask input t =
     t\<lparr>taskFields := setFields (tpFields input) (taskFields t),
       assignedUser := (case tpAssignedUser input of Some u \<Rightarrow> Some u | None \<Rightarrow> assignedUser t)\<rparr>"

text \<open>First file: \<open>findOneAndUpdate({ _id: taskId }, { $set: input }, { new: true })\<close>.\<close>

definition updateTask_resolvers :: "store \<Rightarrow> oid \<Rightarrow> taskPatch \<Rightarrow> store \<times> (error + taskDoc option)" where
  "updateTask_resolvers st taskId input =
     (let (c, updatedTask) = findOneAndUpdate (tasks st) taskId (setTask input) True
      in (st\<lparr>tasks := c\<rparr>, Inr updatedTask))"

text \<open>
  Second file: the task is read first, and the update is
  \<open>{ $set: { ...input, assignedUser: assignedUserId } }\<close> with the assignee just read; a
  task with no assignee leaves the field as it is. A missing task throws inside the
  \<open>try\<close>, and the \<open>catch\<close> throws \<open>new Error("Error updating task")\<close>.
\<close>

definition updateTask_part000 :: "store \<Rightarrow> oid \<Rightarrow> taskPatch \<Rightarrow> store \<times> (error + taskDoc option)" where
  "updateTask_part000 st taskId input =
     (case findById (tasks st) taskId of
        None \<Rightarrow> (st, Inl (Error ''Error updating task''))
      | Some existingTask \<Rightarrow>
          (let assignedUserId' = assignedUser existingTask;
               (c, updatedTask) =
                 findOneAndUpdate (tasks st) taskId
                   (setTask (input\<lparr>tpAssignedUser := assignedUserId'\<rparr>)) True
           in (st\<lparr>tasks := c\<rparr>, Inr updatedTask)))"

subsection \<open>Identifiers in use, and a store to run the resolvers on\<close>

text \<open>
  Every task identifier in the store was handed out by the store before, so it is below
  \<open>nextId\<close>: the identifiers of the task documents and the ones that a project or a
  user refers to. The empty store has the property, and the resolvers keep it.
\<close>

definition taskRefsIssued :: "store \<Rightarrow> bool" where
  "taskRefsIssued st =
     (list_all (\<lambda>(i, t). i < nextId st) (tasks st) \<and>
      list_all (\<lambda>(i, p). list_all (\<lambda>t. t < nextId st) (projectTasks p)) (projects st) \<and>
      list_all (\<lambda>(i, u). list_all (\<lambda>t. t < nextId st) (userTasks u)) (users st))"

definition emptyStore :: store where
  "emptyStore = \<lparr>users = [], teams = [], projects = [], tasks = [], nextId = 0\<rparr>"

text \<open>
  A small store: team 0 with the members Ada (1) and Bob (2), project 3 with the tasks
  4 (Ada's) and 5 (Bob's). Passwords are stored as the text \<open>hash:\<close> followed by the
  password, which \<open>exampleCompare\<close> checks; \<open>exampleHash\<close> and \<open>exampleSign\<close> stand for
  the hashing and the token helper in the examples.
\<close>

definition ada :: userDoc where
  "ada = \<lparr>firstName = ''Ada'', lastName = ''Lovelace'', email = ''ada@example.org'',
           password = ''hash:engine'', userProjects = [3], userTasks = [4], userTeam = Some 0\<rparr>"

definition bob :: userDoc where
  "bob = \<lparr>firstName = ''Bob'', lastName = ''Babbage'', email = ''bob@example.org'',
           password = ''hash:cogs'', userProjects = [3], userTasks = [5], userTeam = Some 0\<rparr>"

definition exampleStore :: store where
  "exampleStore =
     \<lparr>users = [(1, ada), (2, bob)],
      teams = [(0, \<lparr>teamFields = [(''name'', ''Engines'')], teamMembers = [1, 2], teamProjects = [3]\<rparr>)],
      projects =
        [(3, \<lparr>projectFields = [(''projectStatus'', ''Pending'')], projectTasks = [4, 5],
              projectTeam = [Some 0], projectTeams = []\<rparr>)],
      tasks =
        [(4, \<lparr>taskFields = [(''taskStatus'', ''Pending'')], assignedUser = Some 1\<rparr>),
         (5, \<lparr>taskFields = [(''taskStatus'', ''Created'')], assignedUser = Some 2\<rparr>)],
      nextId = 6\<rparr>"

definition exampleCompare :: "string \<Rightarrow> string \<Rightarrow> bool" where
  "exampleCompare given stored = (stored = ''hash:'' @ given)"

definition exampleHash :: "string \<Rightarrow> string" where
  "exampleHash p = ''hash:'' @ p"

definition exampleSign :: "oid \<times> userDoc \<Rightarrow> string" where
  "exampleSign user = ''token:'' @ email (snd user)"

text \<open>Inputs for the example store: a task for Ada in project 3, and a project for
  team 0 in the shape each version of \<open>addProject\<close> takes.\<close>

definition newTask :: taskInput where
  "newTask = \<lparr>tiFields = [(''taskStatus'', ''Created'')], assignedUserId = 1\<rparr>"

definition newProject :: projectInput_part000 where
  "newProject = \<lparr>pipFields = [(''projectStatus'', ''Created'')], teamId = Some 0\<rparr>"

definition newProject_resolvers :: projectInput_resolvers where
  "newProject_resolvers = \<lparr>pirFields = [(''projectStatus'', ''Created'')], teamIds = [0], taskIds = [4]\<rparr>"

section \<open>Properties of the status tallies\<close>

subsection \<open>Plain counting\<close>

lemma sum_update_present:
  fixes acc :: "(string \<times> nat) list"
  shows "map_of acc s = Some c \<Longrightarrow>
     sum_list (map snd (AList.update s v acc)) + c = sum_list (map snd acc) + v"
  by (induction acc) (auto split: if_splits)

lemma sum_update_absent:
  fixes acc :: "(string \<times> nat) list"
  shows "map_of acc s = None \<Longrightarrow>
     sum_list (map snd (AList.update s v acc)) = sum_list (map snd acc) + v"
  by (induction acc) (auto split: if_splits)

lemma countStep_sum: "sum_list (map snd (countStep acc s)) = Suc (sum_list (map snd acc))"
proof (cases "map_of acc s")
  case None
  then show ?thesis by (simp add: countStep_def sum_update_absent)
next
  case (Some c)
  from sum_update_present [OF Some, of "c + 1"] Some show ?thesis
    by (simp add: countStep_def)
qed

lemma count_sum:
  "sum_list (map snd (foldl (\<lambda>acc x. countStep acc (f x)) acc xs)) = sum_list (map snd acc) + length xs"
  by (induction xs arbitrary: acc) (simp_all add: countStep_sum)

lemma countStep_distinct: "distinct (map fst acc) \<Longrightarrow> distinct (map fst (countStep acc s))"
  by (simp add: countStep_def distinct_update)

lemma count_distinct:
  "distinct (map fst acc) \<Longrightarrow> distinct (map fst (foldl (\<lambda>acc x. countStep acc (f x)) acc xs))"
  by (induction xs arbitrary: acc) (simp_all add: countStep_distinct)

lemma countStep_lookup:
  "map_of (countStep acc s) k =
     (if k = s then Some (case map_of acc s of Some c \<Rightarrow> c + 1 | None \<Rightarrow> 1) else map_of acc k)"
  by (simp add: countStep_def update_conv')

text \<open>The count of a status is the number of records that carry it, on top of what the
  accumulator held; a status no record carries keeps the accumulator's entry.\<close>

lemma count_lookup:
  "map_of (foldl (\<lambda>acc x. countStep acc (f x)) acc xs) k =
     (if k \<in> f ` set xs
      then Some ((case map_of acc k of Some c \<Rightarrow> c | None \<Rightarrow> 0) + length (filter (\<lambda>x. f x = k) xs))
      else map_of acc k)"
proof (induction xs arbitrary: acc)
  case Nil
  show ?case by simp
next
  case (Cons x xs)
  show ?case
    by (auto simp add: Cons.IH countStep_lookup filter_empty_conv image_iff split: option.split)
qed

lemma sum_split_key:
  fixes cs :: "(string \<times> nat) list"
  shows "sum_list (map snd cs) =
     sum_list (map snd (filter (\<lambda>kv. fst kv \<noteq> k) cs)) + sum_list (map snd (filter (\<lambda>kv. fst kv = k) cs))"
  by (induction cs) auto

lemma sum_of_key:
  fixes cs :: "(string \<times> nat) list"
  shows "distinct (map fst cs) \<Longrightarrow>
     sum_list (map snd (filter (\<lambda>kv. fst kv = k) cs)) = (case map_of cs k of Some c \<Rightarrow> c | None \<Rightarrow> 0)"
proof (induction cs)
  case Nil
  show ?case by simp
next
  case (Cons x cs)
  have "fst x = k \<Longrightarrow> filter (\<lambda>kv. fst kv = k) cs = []"
  proof -
    assume k: "fst x = k"
    with Cons.prems have "k \<notin> fst ` set cs" by simp
    then have "\<forall>kv \<in> set cs. fst kv \<noteq> k" by (auto simp: image_iff)
    then show ?thesis by (simp add: filter_empty_conv)
  qed
  moreover have "fst x = k \<Longrightarrow> map_of cs k = None"
    using Cons.prems by (simp add: map_of_eq_None_iff)
  ultimately show ?case using Cons by (cases x) auto
qed

subsection \<open>The reducer on statuses that name no inherited property\<close>

lemma map_of_numsOf: "map_of (numsOf acc) k = map_option Num (map_of acc k)"
  unfolding numsOf_def by (induction acc) auto

lemma keys_numsOf: "map fst (numsOf acc) = map fst acc"
  unfolding numsOf_def by (induction acc) auto

lemma update_numsOf: "AList.update k (Num v) (numsOf acc) = numsOf (AList.update k v acc)"
  unfolding numsOf_def by (induction acc) auto

lemma tallyStep_numsOf:
  assumes "\<not> inherited s"
  shows "tallyStep (numsOf acc) s = numsOf (countStep acc s)"
proof -
  from assms have s: "s \<noteq> ''__proto__''" "s \<notin> set inheritedFunctions"
    by (simp_all add: inherited_def)
  show ?thesis
  proof (cases "map_of acc s")
    case None
    with s show ?thesis
      by (simp add: tallyStep_def getProp_def setProp_def countStep_def map_of_numsOf update_numsOf)
  next
    case (Some c)
    with s show ?thesis
      by (simp add: tallyStep_def getProp_def setProp_def countStep_def map_of_numsOf update_numsOf)
  qed
qed

lemma tally_numsOf:
  "\<forall>x \<in> set xs. \<not> inherited (f x) \<Longrightarrow>
     foldl (\<lambda>acc x. tallyStep acc (f x)) (numsOf acc) xs
       = numsOf (foldl (\<lambda>acc x. countStep acc (f x)) acc xs)"
  by (induction xs arbitrary: acc) (simp_all add: tallyStep_numsOf)

lemma tally_from_empty:
  "\<forall>x \<in> set xs. \<not> inherited (f x) \<Longrightarrow>
     foldl (\<lambda>acc x. tallyStep acc (f x)) [] xs = numsOf (foldl (\<lambda>acc x. countStep acc (f x)) [] xs)"
  using tally_numsOf [of xs f "[]"] by (simp add: numsOf_def)

lemma addNum_fold: "foldl addNum (Num n) (map snd (numsOf acc)) = Num (n + sum_list (map snd acc))"
  unfolding numsOf_def by (induction acc arbitrary: n) (auto simp: add.assoc)

lemma sumCounts_numsOf: "sumCounts (numsOf acc) = Num (sum_list (map snd acc))"
  by (simp add: sumCounts_def addNum_fold)

text \<open>Two projects with the status \<open>constructor\<close>, which \<open>{}\<close> inherits as a function: the
  first read is truthy and \<open>++\<close> stores \<open>NaN\<close>, the second read is \<open>NaN\<close> and the
  count starts at 1.\<close>

lemma tallyStep_constructor:
  "tallyStep [] ''constructor'' = [(''constructor'', NaN)]
   \<and> tallyStep [(''constructor'', NaN)] ''constructor'' = [(''constructor'', Num 1)]"
  by (simp add: tallyStep_def getProp_def setProp_def inheritedFunctions_def)

text \<open>
  Claim C7 as stated, at two projects whose status is \<open>constructor\<close>: the tally is
  \<open>{constructor: 1}\<close>, so the counts sum to 1, and the reported total is 2.
\<close>

theorem status_tally_miscounts:
  "projectStatusCounts
     [\<lparr>dateDue = InvalidDate, projectStatus = ''constructor''\<rparr>,
      \<lparr>dateDue = InvalidDate, projectStatus = ''constructor''\<rparr>]
     = [(''constructor'', Num 1)]
   \<and> sumCounts (projectStatusCounts
        [\<lparr>dateDue = InvalidDate, projectStatus = ''constructor''\<rparr>,
         \<lparr>dateDue = InvalidDate, projectStatus = ''constructor''\<rparr>]) = Num 1
   \<and> totalProjectsCount
        [\<lparr>dateDue = InvalidDate, projectStatus = ''constructor''\<rparr>,
         \<lparr>dateDue = InvalidDate, projectStatus = ''constructor''\<rparr>] = 2"
  by (simp add: projectStatusCounts_def totalProjectsCount_def sumCounts_def tallyStep_constructor)

text \<open>
  Claim C7, amended. For every list of projects, and likewise every list of tasks, in
  which no status is the name of a property that \<open>{}\<close> inherits (the values of the status
  enumeration are none), the per-status counts of the tally add up to the length of the
  list, which is the reported total: the tally has one entry per status, and the entry
  of a status is the number of records with that status, so every record is counted in
  exactly one bucket.
\<close>

theorem status_tally_partition:
  assumes "list_all (\<lambda>p. \<not> inherited (projectStatus p)) ps"
    and "list_all (\<lambda>t. \<not> inherited (taskStatus t)) ts"
  shows "sumCounts (projectStatusCounts ps) = Num (totalProjectsCount ps)
   \<and> totalProjectsCount ps = length ps
   \<and> distinct (map fst (projectStatusCounts ps))
   \<and> map_of (projectStatusCounts ps) s =
       (if s \<in> projectStatus ` set ps
        then Some (Num (length (filter (\<lambda>p. projectStatus p = s) ps))) else None)
   \<and> sumCounts (taskStatusCounts ts) = Num (totalTasksCount ts)
   \<and> totalTasksCount ts = length ts
   \<and> distinct (map fst (taskStatusCounts ts))
   \<and> map_of (taskStatusCounts ts) s =
       (if s \<in> taskStatus ` set ts
        then Some (Num (length (filter (\<lambda>t. taskStatus t = s) ts))) else None)"
proof -
  from assms(1) have p: "projectStatusCounts ps
      = numsOf (foldl (\<lambda>acc x. countStep acc (projectStatus x)) [] ps)"
    by (simp add: projectStatusCounts_def tally_from_empty list_all_iff)
  from assms(2) have t: "taskStatusCounts ts
      = numsOf (foldl (\<lambda>acc x. countStep acc (taskStatus x)) [] ts)"
    by (simp add: taskStatusCounts_def tally_from_empty list_all_iff)
  show ?thesis
    by (simp add: p t totalProjectsCount_def totalTasksCount_def sumCounts_numsOf keys_numsOf
        map_of_numsOf count_sum count_distinct count_lookup)
qed

text \<open>One Completed and two Pending projects, and a Pending and a Completed task: the
  project tally is Completed 1, Pending 2, and the total is 3.\<close>

theorem status_tally_partition_witness:
  "list_all (\<lambda>p. \<not> inherited (projectStatus p))
     [\<lparr>dateDue = InvalidDate, projectStatus = ''Completed''\<rparr>,
      \<lparr>dateDue = InvalidDate, projectStatus = ''Pending''\<rparr>,
      \<lparr>dateDue = InvalidDate, projectStatus = ''Pending''\<rparr>]
   \<and> list_all (\<lambda>t. \<not> inherited (taskStatus t))
     [\<lparr>dateDue = InvalidDate, taskStatus = ''Pending''\<rparr>,
      \<lparr>dateDue = InvalidDate, taskStatus = ''Completed''\<rparr>]
   \<and> sumCounts (projectStatusCounts
     [\<lparr>dateDue = InvalidDate, projectStatus = ''Completed''\<rparr>,
      \<lparr>dateDue = InvalidDate, projectStatus = ''Pending''\<rparr>,
      \<lparr>dateDue = InvalidDate, projectStatus = ''Pending''\<rparr>]) = Num 3
   \<and> map_of (projectStatusCounts
     [\<lparr>dateDue = InvalidDate, projectStatus = ''Completed''\<rparr>,
      \<lparr>dateDue = InvalidDate, projectStatus = ''Pending''\<rparr>,
      \<lparr>dateDue = InvalidDate, projectStatus = ''Pending''\<rparr>]) ''Pending'' = Some (Num 2)
   \<and> sumCounts (taskStatusCounts
     [\<lparr>dateDue = InvalidDate, taskStatus = ''Pending''\<rparr>,
      \<lparr>dateDue = InvalidDate, taskStatus = ''Completed''\<rparr>]) = Num 2"
proof -
  let ?ps = "[\<lparr>dateDue = InvalidDate, projectStatus = ''Completed''\<rparr>,
      \<lparr>dateDue = InvalidDate, projectStatus = ''Pending''\<rparr>,
      \<lparr>dateDue = InvalidDate, projectStatus = ''Pending''\<rparr>]"
  let ?ts = "[\<lparr>dateDue = InvalidDate, taskStatus = ''Pending''\<rparr>,
      \<lparr>dateDue = InvalidDate, taskStatus = ''Completed''\<rparr>]"
  have p: "list_all (\<lambda>p. \<not> inherited (projectStatus p)) ?ps"
    by (simp add: inherited_def inheritedFunctions_def)
  have t: "list_all (\<lambda>t. \<not> inherited (taskStatus t)) ?ts"
    by (simp add: inherited_def inheritedFunctions_def)
  from status_tally_partition [OF p t, of "''Pending''"] p t show ?thesis
    by (simp add: totalProjectsCount_def totalTasksCount_def)
qed

lemma status_tally_example:
  "projectStatusCounts
     [\<lparr>dateDue = InvalidDate, projectStatus = ''Completed''\<rparr>,
      \<lparr>dateDue = InvalidDate, projectStatus = ''Pending''\<rparr>,
      \<lparr>dateDue = InvalidDate, projectStatus = ''Pending''\<rparr>]
     = [(''Completed'', Num 1), (''Pending'', Num 2)]
   \<and> totalProjectsCount
     [\<lparr>dateDue = InvalidDate, projectStatus = ''Completed''\<rparr>,
      \<lparr>dateDue = InvalidDate, projectStatus = ''Pending''\<rparr>,
      \<lparr>dateDue = InvalidDate, projectStatus = ''Pending''\<rparr>] = 3"
  by (simp add: projectStatusCounts_def totalProjectsCount_def tallyStep_def getProp_def
      setProp_def inheritedFunctions_def)

subsection \<open>The incomplete-task count\<close>

lemma ownValue_fold:
  "distinct (map fst cs) \<Longrightarrow> set xs \<subseteq> set cs \<Longrightarrow>
     foldl (\<lambda>acc status. addNum acc (ownValue (numsOf cs) status)) (Num a) (filter P (map fst xs)) =
       Num (a + sum_list (map snd (filter (\<lambda>kv. P (fst kv)) xs)))"
proof (induction xs arbitrary: a)
  case Nil
  show ?case by simp
next
  case (Cons x xs)
  obtain k v where x: "x = (k, v)" by (cases x)
  with Cons.prems have "map_of cs k = Some v" by simp
  then have step: "addNum (Num a) (ownValue (numsOf cs) k) = Num (a + v)"
    by (simp add: ownValue_def map_of_numsOf)
  from Cons.prems have rest: "set xs \<subseteq> set cs" by simp
  show ?case
    using Cons.IH [OF Cons.prems(1) rest, of "a + v"] Cons.IH [OF Cons.prems(1) rest, of a]
    by (simp add: x step add.assoc)
qed

lemma incompleteOf_sum:
  "distinct (map fst cs) \<Longrightarrow>
     incompleteOf (numsOf cs)
       = Num (sum_list (map snd cs) - (case map_of cs ''Completed'' of Some c \<Rightarrow> c | None \<Rightarrow> 0))"
  using ownValue_fold [of cs cs 0 "\<lambda>status. status \<noteq> ''Completed''"]
    sum_split_key [of cs "''Completed''"] sum_of_key [of cs "''Completed''"]
  by (simp add: incompleteOf_def keys_numsOf)

lemma count_Completed:
  "(case map_of (foldl (\<lambda>acc x. countStep acc (f x)) [] xs) ''Completed'' of Some c \<Rightarrow> c | None \<Rightarrow> 0) =
     length (filter (\<lambda>x. f x = ''Completed'') xs)"
  by (force simp add: count_lookup filter_empty_conv)

text \<open>
  Claim C8 as stated, at two tasks with the status \<open>toString\<close>, which \<open>{}\<close> inherits as a
  function, and one Completed task: the tally is \<open>{toString: 1, Completed: 1}\<close> and the
  incomplete-task count is 1, while the total number of tasks minus the number of
  Completed tasks is 2.
\<close>

theorem incomplete_count_miscounts:
  "incompleteTasksCount
     [\<lparr>dateDue = InvalidDate, taskStatus = ''toString''\<rparr>,
      \<lparr>dateDue = InvalidDate, taskStatus = ''toString''\<rparr>,
      \<lparr>dateDue = InvalidDate, taskStatus = ''Completed''\<rparr>] = Num 1
   \<and> totalTasksCount
     [\<lparr>dateDue = InvalidDate, taskStatus = ''toString''\<rparr>,
      \<lparr>dateDue = InvalidDate, taskStatus = ''toString''\<rparr>,
      \<lparr>dateDue = InvalidDate, taskStatus = ''Completed''\<rparr>]
     - length (filter (\<lambda>t. taskStatus t = ''Completed'')
     [\<lparr>dateDue = InvalidDate, taskStatus = ''toString''\<rparr>,
      \<lparr>dateDue = InvalidDate, taskStatus = ''toString''\<rparr>,
      \<lparr>dateDue = InvalidDate, taskStatus = ''Completed''\<rparr>]) = 2"
  by (simp add: incompleteTasksCount_def incompleteOf_def ownValue_def taskStatusCounts_def
      totalTasksCount_def tallyStep_def getProp_def setProp_def inheritedFunctions_def)

text \<open>
  Claim C8, amended. For every task list in which no status is the name of a property
  that \<open>{}\<close> inherits, the incomplete-task count, the sum of the tallies of all statuses
  other than \<open>"Completed"\<close>, is a number and equals the total number of tasks minus the
  number of tasks whose status is \<open>"Completed"\<close>.
\<close>

theorem incomplete_is_total_minus_completed:
  assumes "list_all (\<lambda>t. \<not> inherited (taskStatus t)) ts"
  shows "incompleteTasksCount ts =
     Num (totalTasksCount ts - length (filter (\<lambda>t. taskStatus t = ''Completed'') ts))"
proof -
  let ?cs = "foldl (\<lambda>acc x. countStep acc (taskStatus x)) [] ts"
  from assms have t: "taskStatusCounts ts = numsOf ?cs"
    by (simp add: taskStatusCounts_def tally_from_empty list_all_iff)
  have d: "distinct (map fst ?cs)"
    by (simp add: count_distinct)
  have s: "sum_list (map snd ?cs) = length ts"
    by (simp add: count_sum)
  show ?thesis
    using incompleteOf_sum [OF d] s count_Completed [of taskStatus ts]
    by (simp add: incompleteTasksCount_def totalTasksCount_def t)
qed

theorem incomplete_is_total_minus_completed_witness:
  "list_all (\<lambda>t. \<not> inherited (taskStatus t))
     [\<lparr>dateDue = InvalidDate, taskStatus = ''Pending''\<rparr>,
      \<lparr>dateDue = InvalidDate, taskStatus = ''Completed''\<rparr>,
      \<lparr>dateDue = InvalidDate, taskStatus = ''InProgress''\<rparr>]
   \<and> incompleteTasksCount
     [\<lparr>dateDue = InvalidDate, taskStatus = ''Pending''\<rparr>,
      \<lparr>dateDue = InvalidDate, taskStatus = ''Completed''\<rparr>,
      \<lparr>dateDue = InvalidDate, taskStatus = ''InProgress''\<rparr>] = Num 2"
proof -
  let ?ts = "[\<lparr>dateDue = InvalidDate, taskStatus = ''Pending''\<rparr>,
      \<lparr>dateDue = InvalidDate, taskStatus = ''Completed''\<rparr>,
      \<lparr>dateDue = InvalidDate, taskStatus = ''InProgress''\<rparr>]"
  have t: "list_all (\<lambda>t. \<not> inherited (taskStatus t)) ?ts"
    by (simp add: inherited_def inheritedFunctions_def)
  from incomplete_is_total_minus_completed [OF t] t show ?thesis
    by (simp add: totalTasksCount_def)
qed

section \<open>Properties of the nearest due date\<close>

subsection \<open>One step of the scan, on well-formed dates\<close>

lemma dueDate_cases:
  assumes "atMidnight r"
  obtains d where "dateDue r = Date d 0" and "dayOf r = d"
  using assms by (auto simp: atMidnight_def dayOf_def split: jsdate.splits)

lemma step_None: "closestStep today None x = Some x"
  by (simp add: closestStep_def Let_def)

lemma step_Some:
  assumes "atMidnight x" and "atMidnight c" and "ms < 86400000"
  shows "closestStep (Date t ms) (Some c) x =
     (if dayOf x = t then Some x
      else if t < dayOf x \<and> (dayOf x < dayOf c \<or> dayOf c \<le> t) then Some x else Some c)"
proof -
  from assms(1) obtain d where x: "dateDue x = Date d 0" "dayOf x = d" by (rule dueDate_cases)
  from assms(2) obtain e where c: "dateDue c = Date e 0" "dayOf c = e" by (rule dueDate_cases)
  have gt: "date_gt (Date d 0) (Date t ms) \<longleftrightarrow> t < d"
    using assms(3) by (simp add: date_gt_def) arith
  have lt: "date_lt (Date d 0) (Date e 0) \<longleftrightarrow> d < e"
    by (simp add: date_lt_def)
  have le: "date_le (Date e 0) (Date t ms) \<longleftrightarrow> e \<le> t"
    using assms(3) by (simp add: date_le_def) arith
  show ?thesis
    by (simp add: closestStep_def x c gt lt le)
qed


subsection \<open>The scan\<close>

text \<open>
  Over records with well-formed due dates, none of them today: the scan of an empty list
  is \<open>null\<close>; with a due date after today in the list it ends on the first record with
  the earliest such date; otherwise it ends on the first record of the list.
\<close>

lemma closest_scan:
  assumes ms: "ms < 86400000"
  shows "(\<forall>r \<in> set rs. atMidnight r \<and> dayOf r \<noteq> t) \<Longrightarrow>
     (case closestDueDate (Date t ms) rs of
        None \<Rightarrow> rs = []
      | Some c \<Rightarrow> c \<in> set rs \<and>
          (if \<exists>x \<in> set rs. t < dayOf x then nearestFuture t rs c else c = hd rs))"
proof (induction rs rule: rev_induct)
  case Nil
  show ?case by (simp add: closestDueDate_def)
next
  case (snoc x rs)
  then have x: "atMidnight x" "dayOf x \<noteq> t" and rs: "\<forall>r \<in> set rs. atMidnight r \<and> dayOf r \<noteq> t"
    by simp_all
  note IH = snoc.IH [OF rs]
  have fold: "closestDueDate (Date t ms) (rs @ [x]) = closestStep (Date t ms) (closestDueDate (Date t ms) rs) x"
    by (simp add: closestDueDate_def)
  show ?case
  proof (cases "closestDueDate (Date t ms) rs")
    case None
    with IH have e: "rs = []" by simp
    have res: "closestDueDate (Date t ms) (rs @ [x]) = Some x"
      by (simp add: fold None step_None)
    have "t < dayOf x \<Longrightarrow> nearestFuture t [x] x"
      unfolding nearestFuture_def by (intro conjI) (simp, simp, rule exI [of _ "[]"], simp)
    then show ?thesis
      by (simp add: res) (simp add: e)
  next
    case (Some c)
    with IH have c: "c \<in> set rs"
      and sel: "if \<exists>x \<in> set rs. t < dayOf x then nearestFuture t rs c else c = hd rs"
      by simp_all
    from c rs have cm: "atMidnight c" by simp
    from c have ne: "rs \<noteq> []" by auto
    note st = step_Some [OF x(1) cm ms, of t]
    show ?thesis
    proof (cases "\<exists>y \<in> set rs. t < dayOf y")
      case True
      with sel have nf: "nearestFuture t rs c" by simp
      then obtain pre post where split: "rs = pre @ c # post" "\<forall>y \<in> set pre. dayOf y \<noteq> dayOf c"
        and fut: "t < dayOf c" and least: "\<forall>y \<in> set rs. t < dayOf y \<longrightarrow> dayOf c \<le> dayOf y"
        by (auto simp: nearestFuture_def)
      show ?thesis
      proof (cases "t < dayOf x \<and> dayOf x < dayOf c")
        case True
        then have res: "closestDueDate (Date t ms) (rs @ [x]) = Some x"
          using x by (simp add: fold Some st)
        have "\<forall>y \<in> set rs. dayOf y \<noteq> dayOf x"
          using least True by fastforce
        then have "nearestFuture t (rs @ [x]) x"
          using True least by (fastforce simp: nearestFuture_def)
        with True show ?thesis by (auto simp add: res)
      next
        case False
        then have res: "closestDueDate (Date t ms) (rs @ [x]) = Some c"
          using x fut by (auto simp add: fold Some st)
        have "rs @ [x] = pre @ c # (post @ [x])" using split by simp
        with split(2) fut least False have "nearestFuture t (rs @ [x]) c"
          unfolding nearestFuture_def by (intro conjI) (auto intro: exI [of _ pre])
        with c fut show ?thesis by (auto simp add: res)
      qed
    next
      case False
      with sel have hd: "c = hd rs" by simp
      from False c have past: "dayOf c \<le> t" by fastforce
      show ?thesis
      proof (cases "t < dayOf x")
        case True
        then have res: "closestDueDate (Date t ms) (rs @ [x]) = Some x"
          using x past by (simp add: fold Some st)
        have "nearestFuture t (rs @ [x]) x"
        proof -
          have a: "\<forall>y \<in> set (rs @ [x]). t < dayOf y \<longrightarrow> dayOf x \<le> dayOf y"
            using False by auto
          have b: "\<forall>y \<in> set rs. dayOf y \<noteq> dayOf x"
            using True False by fastforce
          have "\<exists>pre post. rs @ [x] = pre @ x # post \<and> (\<forall>y \<in> set pre. dayOf y \<noteq> dayOf x)"
            using b by (intro exI [of _ rs] exI [of _ "[]"]) simp
          with True a show ?thesis
            by (simp add: nearestFuture_def)
        qed
        with True show ?thesis by (auto simp add: res)
      next
        case F: False
        then have res: "closestDueDate (Date t ms) (rs @ [x]) = Some c"
          using x past by (simp add: fold Some st)
        from F False have "\<not> (\<exists>y \<in> set (rs @ [x]). t < dayOf y)" by auto
        with c hd ne show ?thesis by (simp add: res)
      qed
    qed
  qed
qed


subsection \<open>What is selected\<close>

lemma isDueToday_midnight:
  "atMidnight r \<Longrightarrow> isDueToday (Date t ms) r \<longleftrightarrow> dayOf r = t"
  by (auto simp: isDueToday_def elim!: dueDate_cases)

text \<open>A record due today is selected, the first one in the list, and the card prints
  \<open>TODAY\<close>.\<close>

lemma due_today_selected:
  assumes "hasDueDateToday today rs"
  shows "\<exists>pre r post. rs = pre @ r # post \<and> recordToReturn today rs = Some r \<and> isDueToday today r
           \<and> (\<forall>x \<in> set pre. \<not> isDueToday today x) \<and> dueLabel today (recordToReturn today rs) = TODAY"
proof -
  from assms obtain r where f: "List.find (isDueToday today) rs = Some r"
    by (cases "List.find (isDueToday today) rs") (auto simp: hasDueDateToday_def list_ex_iff find_None_iff)
  then obtain i where i: "i < length rs" "isDueToday today (rs ! i)" "r = rs ! i"
    "\<forall>j < i. \<not> isDueToday today (rs ! j)"
    by (auto simp: find_Some_iff)
  have "rs = take i rs @ r # drop (Suc i) rs"
    using i(1,3) by (simp add: id_take_nth_drop)
  moreover have "\<forall>x \<in> set (take i rs). \<not> isDueToday today x"
    using i(1,4) by (auto simp: in_set_conv_nth)
  moreover have "dueLabel today (Some r) = TODAY"
    using i(2,3) by (simp add: dueLabel_def isDueToday_def)
  ultimately show ?thesis
    using assms f i(2,3) by (auto simp add: recordToReturn_def)
qed

text \<open>With no record due today and a due date after today, the first record with the
  earliest such date is selected and its date is printed.\<close>

lemma nearest_future_selected:
  assumes "\<forall>r \<in> set rs. atMidnight r" and "ms < 86400000"
    and "\<not> hasDueDateToday (Date t ms) rs" and "\<exists>x \<in> set rs. t < dayOf x"
  shows "\<exists>r. recordToReturn (Date t ms) rs = Some r \<and> nearestFuture t rs r
           \<and> dueLabel (Date t ms) (recordToReturn (Date t ms) rs) = DueOn (DayString (dayOf r))"
proof -
  from assms(1,3) have ok: "\<forall>r \<in> set rs. atMidnight r \<and> dayOf r \<noteq> t"
    by (auto simp: hasDueDateToday_def list_ex_iff isDueToday_midnight)
  from closest_scan [OF assms(2) ok] assms(4)
  obtain c where c: "closestDueDate (Date t ms) rs = Some c" "c \<in> set rs" "nearestFuture t rs c"
    by (auto split: option.splits)
  from c(2) ok have "atMidnight c" "dayOf c \<noteq> t" by simp_all
  then have "dueLabel (Date t ms) (Some c) = DueOn (DayString (dayOf c))"
    by (auto simp: dueLabel_def elim!: dueDate_cases)
  with c assms(3) show ?thesis
    by (simp add: recordToReturn_def)
qed

text \<open>With every due date before today, the first record of the list is selected and its
  date, a past one, is printed.\<close>

lemma past_only_selected:
  assumes "\<forall>r \<in> set rs. atMidnight r" and "ms < 86400000" and "rs \<noteq> []"
    and "\<forall>x \<in> set rs. dayOf x < t"
  shows "recordToReturn (Date t ms) rs = Some (hd rs)"
    and "dueLabel (Date t ms) (recordToReturn (Date t ms) rs) = DueOn (DayString (dayOf (hd rs)))"
proof -
  from assms(1,4) have ok: "\<forall>r \<in> set rs. atMidnight r \<and> dayOf r \<noteq> t"
    by fastforce
  from assms(1,4) have nt: "\<not> hasDueDateToday (Date t ms) rs"
    by (auto simp: hasDueDateToday_def list_ex_iff isDueToday_midnight)
  from assms(4) have nf: "\<not> (\<exists>x \<in> set rs. t < dayOf x)" by fastforce
  from closest_scan [OF assms(2) ok] assms(3) nf
  have c: "closestDueDate (Date t ms) rs = Some (hd rs)"
    by (auto split: option.splits)
  with nt show r: "recordToReturn (Date t ms) rs = Some (hd rs)"
    by (simp add: recordToReturn_def)
  from assms(3) ok have "atMidnight (hd rs)" "dayOf (hd rs) \<noteq> t" by simp_all
  then show "dueLabel (Date t ms) (recordToReturn (Date t ms) rs) = DueOn (DayString (dayOf (hd rs)))"
    by (auto simp: r dueLabel_def elim!: dueDate_cases)
qed

text \<open>The card prints \<open>"No upcoming due date"\<close> for the empty list and for no other.\<close>

lemma closestStep_Some: "\<exists>r. closestStep today closest x = Some r"
  by (simp add: closestStep_def Let_def split: option.split)

lemma closestDueDate_nonempty: "rs \<noteq> [] \<Longrightarrow> \<exists>r. closestDueDate today rs = Some r"
proof (induction rs rule: rev_induct)
  case Nil
  then show ?case by simp
next
  case (snoc x rs)
  show ?case
    using closestStep_Some [of today "closestDueDate today rs" x]
    by (simp add: closestDueDate_def)
qed

lemma no_upcoming_only_if_empty:
  "dueLabel today (recordToReturn today rs) = NoUpcomingDueDate \<longleftrightarrow> rs = []"
proof (cases "rs = []")
  case True
  then show ?thesis
    by (simp add: dueLabel_def recordToReturn_def hasDueDateToday_def closestDueDate_def)
next
  case False
  have "\<exists>r. recordToReturn today rs = Some r"
  proof (cases "hasDueDateToday today rs")
    case True
    from due_today_selected [OF True] show ?thesis by blast
  next
    case F: False
    with closestDueDate_nonempty [OF False, of today] show ?thesis
      by (simp add: recordToReturn_def)
  qed
  with False show ?thesis
    by (auto simp: dueLabel_def split: if_splits)
qed

text \<open>A task due today (day 100) and one due next week: the card prints \<open>TODAY\<close>; with
  the first one due in three days instead, it prints that day.\<close>

lemma due_today_example:
  "nextTaskDue (Date 100 43200000)
     [\<lparr>dateDue = Date 107 0, taskStatus = ''Pending''\<rparr>, \<lparr>dateDue = Date 100 0, taskStatus = ''Created''\<rparr>]
     = TODAY
   \<and> nextTaskDue (Date 100 43200000)
     [\<lparr>dateDue = Date 99 0, taskStatus = ''Pending''\<rparr>, \<lparr>dateDue = Date 107 0, taskStatus = ''Pending''\<rparr>,
      \<lparr>dateDue = Date 103 0, taskStatus = ''Created''\<rparr>]
     = DueOn (DayString 103)"
  by (simp add: nextTaskDue_def taskToReturn_def recordToReturn_def hasDueDateToday_def
      isDueToday_def closestDueDate_def closestStep_def dueLabel_def date_gt_def date_lt_def
      date_le_def)

text \<open>
  Claim C4, at a list the claim's last clause is about. Today is day 100, at noon. One
  project due on day 99: the card prints that day under "Your next PROJECT is due". Two
  tasks due on days 99 and 42: the card prints day 99, the first record's. The claim
  expects "No upcoming due date" for both, since no due date is after today.
\<close>

theorem past_due_record_is_printed:
  "nextProjectDue (Date 100 43200000) [\<lparr>dateDue = Date 99 0, projectStatus = ''Pending''\<rparr>]
     = DueOn (DayString 99)
   \<and> nextTaskDue (Date 100 43200000)
       [\<lparr>dateDue = Date 99 0, taskStatus = ''Pending''\<rparr>, \<lparr>dateDue = Date 42 0, taskStatus = ''Created''\<rparr>]
     = DueOn (DayString 99)"
  by (simp add: nextProjectDue_def nextTaskDue_def projectToReturn_def taskToReturn_def
      recordToReturn_def hasDueDateToday_def isDueToday_def closestDueDate_def closestStep_def
      dueLabel_def date_gt_def date_lt_def date_le_def)

section \<open>Properties of the resolvers\<close>

subsection \<open>Collections\<close>

lemma findById_mem: "findById c i = Some d \<Longrightarrow> (i, d) \<in> set c"
  by (simp add: findById_def map_of_SomeD)

lemma set_save: "x \<in> set (save c i d) \<Longrightarrow> x = (i, d) \<or> x \<in> set c"
  unfolding save_def by (induction c) (auto split: if_splits)

lemma set_deleteOne: "x \<in> set (deleteOne i c) \<Longrightarrow> x \<in> set c"
  by (induction c) (auto split: if_splits)

lemma set_findIn: "x \<in> set (findIn c ids) \<Longrightarrow> x \<in> set c"
  by (simp add: findIn_def)

lemma findById_save: "findById (save c i d) j = (if j = i then Some d else findById c j)"
  by (simp add: findById_def save_def update_conv')

subsection \<open>Login\<close>

lemma findOneByEmail_None: "findOneByEmail c e = None \<longleftrightarrow> e \<notin> (email \<circ> snd) ` set c"
  unfolding findOneByEmail_def by (induction c) (auto split: prod.splits)

lemma findOneByEmail_Some:
  "findOneByEmail c e = Some user \<Longrightarrow> user \<in> set c \<and> email (snd user) = e"
  unfolding findOneByEmail_def by (induction c) (auto split: prod.splits if_splits)

text \<open>
  Claim C2. When the user that the lookup by email finds fails the comparison of the
  given password with the stored hash, \<open>login\<close> ends in the authentication error, and so
  it does when no user has the email. The result is then the error alone: no user and
  no token come with it.
\<close>

theorem login_rejects:
  "(findOneByEmail (users st) e = Some user \<and> \<not> isCorrectPassword pw (password (snd user))
      \<longrightarrow> login isCorrectPassword signToken st e pw = Inl AuthenticationError)
   \<and> (e \<notin> (email \<circ> snd) ` set (users st)
      \<longrightarrow> login isCorrectPassword signToken st e pw = Inl AuthenticationError)"
proof -
  have "e \<notin> (email \<circ> snd) ` set (users st) \<Longrightarrow> findOneByEmail (users st) e = None"
    using findOneByEmail_None [of "users st" e] by blast
  then show ?thesis
    by (auto simp add: login_def)
qed

theorem login_rejects_witness:
  "findOneByEmail (users exampleStore) ''ada@example.org'' = Some (1, ada)
   \<and> \<not> exampleCompare ''wrong'' (password (snd (1::nat, ada)))
   \<and> login exampleCompare exampleSign exampleStore ''ada@example.org'' ''wrong'' = Inl AuthenticationError
   \<and> ''eve@example.org'' \<notin> (email \<circ> snd) ` set (users exampleStore)
   \<and> login exampleCompare exampleSign exampleStore ''eve@example.org'' ''engine'' = Inl AuthenticationError"
  using login_rejects [of exampleStore "''ada@example.org''" "(1, ada)" exampleCompare "''wrong''" exampleSign]
    login_rejects [of exampleStore "''eve@example.org''" "(1, ada)" exampleCompare "''engine''" exampleSign]
  by (simp add: findOneByEmail_def exampleStore_def ada_def bob_def exampleCompare_def)

text \<open>The right password is accepted: the error is not all that \<open>login\<close> returns.\<close>

lemma login_accepts_example:
  "login exampleCompare exampleSign exampleStore ''ada@example.org'' ''engine''
     = Inr ((1, ada), ''token:ada@example.org'')"
  by (simp add: login_def findOneByEmail_def exampleStore_def ada_def bob_def exampleCompare_def
      exampleSign_def)

subsection \<open>Removal of a record that does not exist\<close>

text \<open>
  Claim C10 as stated, at an identifier that is not the text of an object identifier:
  it matches no record, and \<open>removeTask\<close> raises the store's \<open>CastError\<close> instead of
  returning \<open>null\<close>.
\<close>

theorem remove_malformed_raises:
  "removeTask exampleStore (Malformed ''abc'') = (exampleStore, Inl CastError)
   \<and> removeUser exampleStore (Malformed ''abc'') = (exampleStore, Inl CastError)
   \<and> removeProject exampleStore (Malformed ''abc'') = (exampleStore, Inl CastError)"
  by (simp add: removeTask_def removeUser_def removeProject_def findOneAndDelete_def)

text \<open>
  Claim C10, amended. \<open>removeUser\<close>, \<open>removeProject\<close> and \<open>removeTask\<close> with a well-formed
  object identifier that no record of the collection has return \<open>null\<close>, raise nothing
  and leave the store as it was. With an identifier that is not well formed they raise
  the store's \<open>CastError\<close>, and the store is as it was too.
\<close>

theorem remove_missing_is_noop:
  "(findById (users st) i = None \<longrightarrow> removeUser st (ObjectId i) = (st, Inr None))
   \<and> (findById (projects st) i = None \<longrightarrow> removeProject st (ObjectId i) = (st, Inr None))
   \<and> (findById (tasks st) i = None \<longrightarrow> removeTask st (ObjectId i) = (st, Inr None))
   \<and> removeUser st (Malformed raw) = (st, Inl CastError)
   \<and> removeProject st (Malformed raw) = (st, Inl CastError)
   \<and> removeTask st (Malformed raw) = (st, Inl CastError)"
  by (simp add: removeUser_def removeProject_def removeTask_def findOneAndDelete_def)

theorem remove_missing_is_noop_witness:
  "findById (users exampleStore) 9 = None
   \<and> removeUser exampleStore (ObjectId 9) = (exampleStore, Inr None)
   \<and> findById (projects exampleStore) 9 = None
   \<and> removeProject exampleStore (ObjectId 9) = (exampleStore, Inr None)
   \<and> findById (tasks exampleStore) 9 = None
   \<and> removeTask exampleStore (ObjectId 9) = (exampleStore, Inr None)"
  using remove_missing_is_noop [of exampleStore 9]
  by (simp add: findById_def exampleStore_def)

text \<open>A record that exists is removed and returned.\<close>

lemma remove_existing_example:
  "removeTask exampleStore (ObjectId 4) =
     (exampleStore\<lparr>tasks := [(5, \<lparr>taskFields = [(''taskStatus'', ''Created'')], assignedUser = Some 2\<rparr>)]\<rparr>,
      Inr (Some \<lparr>taskFields = [(''taskStatus'', ''Pending'')], assignedUser = Some 1\<rparr>))"
  by (simp add: removeTask_def findOneAndDelete_def findById_def exampleStore_def)

subsection \<open>What \<open>updateUser\<close> returns\<close>

text \<open>
  Claim C9. \<open>updateUser\<close> of the version that hashes the password again returns the user
  record as it was before the patch, while the stored record is the patched one (with
  the new password hashed); the other version returns the stored record after the
  patch. Both return \<open>null\<close> when there is no such user.
\<close>

theorem updateUser_returned_document:
  "snd (updateUser_part000 hash st userId input) = Inr (findById (users st) userId)
   \<and> findById (users (fst (updateUser_part000 hash st userId input))) userId
       = map_option (setUser (rehash hash input)) (findById (users st) userId)
   \<and> snd (updateUser_resolvers st userId input)
       = Inr (findById (users (fst (updateUser_resolvers st userId input))) userId)
   \<and> findById (users (fst (updateUser_resolvers st userId input))) userId
       = map_option (setUser input) (findById (users st) userId)"
  by (simp add: updateUser_part000_def updateUser_resolvers_def findOneAndUpdate_def
      findById_save split: option.split)

text \<open>On the example store the two versions differ in what they return and in what they
  store as the password.\<close>

lemma updateUser_example:
  "snd (updateUser_part000 exampleHash exampleStore 1
          \<lparr>upFirstName = None, upLastName = Some ''King'', upEmail = None, upPassword = Some ''loom''\<rparr>)
     = Inr (Some ada)
   \<and> findById (users (fst (updateUser_part000 exampleHash exampleStore 1
          \<lparr>upFirstName = None, upLastName = Some ''King'', upEmail = None, upPassword = Some ''loom''\<rparr>))) 1
     = Some (ada\<lparr>lastName := ''King'', password := ''hash:loom''\<rparr>)
   \<and> snd (updateUser_resolvers exampleStore 1
          \<lparr>upFirstName = None, upLastName = Some ''King'', upEmail = None, upPassword = Some ''loom''\<rparr>)
     = Inr (Some (ada\<lparr>lastName := ''King'', password := ''loom''\<rparr>))"
  by (simp add: updateUser_part000_def updateUser_resolvers_def findOneAndUpdate_def findById_def
      save_def exampleStore_def setUser_def rehash_def exampleHash_def ada_def)

subsection \<open>\<open>addProject\<close> and the members of the team\<close>

lemma map_of_pushProject:
  "map_of (pushProject pid c x) k =
     (if k = fst x then Some ((snd x)\<lparr>userProjects := userProjects (snd x) @ [pid]\<rparr>) else map_of c k)"
  by (simp add: pushProject_def save_def update_conv')

lemma map_of_fold_pushProject:
  "map_of (foldl (pushProject pid) c found) k =
     (case map_of (rev found) k of
        Some u \<Rightarrow> Some (u\<lparr>userProjects := userProjects u @ [pid]\<rparr>)
      | None \<Rightarrow> map_of c k)"
proof (induction found arbitrary: c)
  case Nil
  show ?case by simp
next
  case (Cons x xs)
  show ?case
    by (cases x) (simp add: Cons.IH map_of_pushProject map_add_def split: option.split)
qed

lemma findIn_covers:
  assumes "uid \<in> set ids" and "findById c uid = Some u"
  shows "\<exists>v. map_of (rev (findIn c ids)) uid = Some v"
proof -
  from assms have "(uid, u) \<in> set (findIn c ids)"
    by (auto simp: findIn_def dest: findById_mem)
  then have "uid \<in> fst ` set (rev (findIn c ids))"
    by force
  then show ?thesis
    by (metis map_of_eq_None_iff not_Some_eq)
qed

lemma pushed_to_members:
  assumes "uid \<in> set ids" and "findById c uid = Some u"
  shows "\<exists>u'. findById (foldl (pushProject pid) c (findIn c ids)) uid = Some u' \<and> pid \<in> set (userProjects u')"
proof -
  from findIn_covers [OF assms] obtain v where "map_of (rev (findIn c ids)) uid = Some v" ..
  then show ?thesis
    by (simp add: findById_def map_of_fold_pushProject)
qed

lemma addProject_part000_succeeds:
  "teamId input = Some tid \<Longrightarrow> findById (teams st) tid = Some team \<Longrightarrow>
     \<exists>project. snd (addProject_part000 st input) = Inr (nextId st, project)"
  by (simp add: addProject_part000_def createProject_def Let_def)

lemma addProject_part000_example:
  "addProject_part000 exampleStore newProject =
     (exampleStore
        \<lparr>users := [(1, ada\<lparr>userProjects := [3, 6]\<rparr>), (2, bob\<lparr>userProjects := [3, 6]\<rparr>)],
         teams := [(0, \<lparr>teamFields = [(''name'', ''Engines'')], teamMembers = [1, 2], teamProjects = [3, 6]\<rparr>)],
         projects :=
           [(3, \<lparr>projectFields = [(''projectStatus'', ''Pending'')], projectTasks = [4, 5],
                 projectTeam = [Some 0], projectTeams = []\<rparr>),
            (6, \<lparr>projectFields = [(''projectStatus'', ''Created'')], projectTasks = [],
                 projectTeam = [Some 0], projectTeams = []\<rparr>)],
         nextId := 7\<rparr>,
      Inr (6, \<lparr>projectFields = [(''projectStatus'', ''Created'')], projectTasks = [],
                projectTeam = [Some 0], projectTeams = []\<rparr>))"
  by (simp add: addProject_part000_def createProject_def findById_def save_def findIn_def
      pushProject_def exampleStore_def newProject_def ada_def bob_def Let_def)

lemma addProject_resolvers_example:
  "addProject_resolvers exampleStore newProject_resolvers =
     (exampleStore
        \<lparr>projects :=
           [(3, \<lparr>projectFields = [(''projectStatus'', ''Pending'')], projectTasks = [4, 5],
                 projectTeam = [Some 0], projectTeams = []\<rparr>),
            (6, \<lparr>projectFields = [(''projectStatus'', ''Created'')], projectTasks = [4],
                 projectTeam = [], projectTeams = [0]\<rparr>)],
         nextId := 7\<rparr>,
      Inr (6, \<lparr>projectFields = [(''projectStatus'', ''Created'')], projectTasks = [4],
                projectTeam = [], projectTeams = [0]\<rparr>))"
  by (simp add: addProject_resolvers_def createProject_def findById_def save_def findIn_def
      exampleStore_def newProject_resolvers_def Let_def)

text \<open>
  Claim C6 as stated, at the first file's \<open>addProject\<close>: the input names team 0, whose
  members are the users 1 and 2; the call succeeds with the new project 6, and neither
  user 1's project list nor the team's own project list holds 6 afterwards.
\<close>

theorem addProject_resolvers_skips_members:
  "teamIds newProject_resolvers = [0]
   \<and> map_option teamMembers (findById (teams exampleStore) 0) = Some [1, 2]
   \<and> snd (addProject_resolvers exampleStore newProject_resolvers)
       = Inr (6, \<lparr>projectFields = [(''projectStatus'', ''Created'')], projectTasks = [4],
                   projectTeam = [], projectTeams = [0]\<rparr>)
   \<and> map_option userProjects (findById (users (fst (addProject_resolvers exampleStore newProject_resolvers))) 1)
       = Some [3]
   \<and> map_option teamProjects (findById (teams (fst (addProject_resolvers exampleStore newProject_resolvers))) 0)
       = Some [3]"
  by (simp add: addProject_resolvers_example)
    (simp add: findById_def exampleStore_def ada_def newProject_resolvers_def)

text \<open>
  Claim C6, amended. For every successful \<open>addProject\<close> call of the second file that
  supplies the identifier of an existing team, the new project's identifier is in the
  team's project list and in the project list of every member of the team (every user
  document that the team's member list names) afterwards. \<open>addProject\<close> of the first
  file writes the project only: it leaves the users and the teams as they were.
\<close>

theorem addProject_reaches_team_and_members:
  "(teamId input = Some tid \<and> findById (teams st) tid = Some team
      \<and> addProject_part000 st input = (st', Inr (projectId, project)) \<longrightarrow>
      (\<exists>team'. findById (teams st') tid = Some team' \<and> projectId \<in> set (teamProjects team'))
      \<and> (\<forall>uid \<in> set (teamMembers team). \<forall>u. findById (users st) uid = Some u \<longrightarrow>
            (\<exists>u'. findById (users st') uid = Some u' \<and> projectId \<in> set (userProjects u'))))
   \<and> users (fst (addProject_resolvers st input')) = users st
   \<and> teams (fst (addProject_resolvers st input')) = teams st"
proof -
  have "users (fst (addProject_resolvers st input')) = users st"
    and "teams (fst (addProject_resolvers st input')) = teams st"
    by (simp_all add: addProject_resolvers_def createProject_def Let_def)
  moreover
  {
    assume tid: "teamId input = Some tid" and team: "findById (teams st) tid = Some team"
      and run: "addProject_part000 st input = (st', Inr (projectId, project))"
    from tid team run have pid: "projectId = nextId st"
      and teams': "teams st' = save (teams st) tid (team\<lparr>teamProjects := teamProjects team @ [projectId]\<rparr>)"
      and users': "users st' = foldl (pushProject projectId) (users st) (findIn (users st) (teamMembers team))"
      by (auto simp add: addProject_part000_def createProject_def Let_def)
    have "\<exists>team'. findById (teams st') tid = Some team' \<and> projectId \<in> set (teamProjects team')"
      by (simp add: teams' findById_save)
    moreover have "\<forall>uid \<in> set (teamMembers team). \<forall>u. findById (users st) uid = Some u \<longrightarrow>
            (\<exists>u'. findById (users st') uid = Some u' \<and> projectId \<in> set (userProjects u'))"
      using pushed_to_members [of _ "teamMembers team" "users st" _ projectId]
      by (simp add: users')
    ultimately have "(\<exists>team'. findById (teams st') tid = Some team' \<and> projectId \<in> set (teamProjects team'))
      \<and> (\<forall>uid \<in> set (teamMembers team). \<forall>u. findById (users st) uid = Some u \<longrightarrow>
            (\<exists>u'. findById (users st') uid = Some u' \<and> projectId \<in> set (userProjects u')))"
      by blast
  }
  ultimately show ?thesis by blast
qed

theorem addProject_reaches_team_and_members_witness:
  "teamId newProject = Some 0
   \<and> map_option teamMembers (findById (teams exampleStore) 0) = Some [1, 2]
   \<and> (\<exists>project. snd (addProject_part000 exampleStore newProject) = Inr (6, project))
   \<and> (\<exists>team'. findById (teams (fst (addProject_part000 exampleStore newProject))) 0 = Some team'
          \<and> 6 \<in> set (teamProjects team'))
   \<and> (\<exists>u'. findById (users (fst (addProject_part000 exampleStore newProject))) 1 = Some u'
          \<and> 6 \<in> set (userProjects u'))
   \<and> (\<exists>u'. findById (users (fst (addProject_part000 exampleStore newProject))) 2 = Some u'
          \<and> 6 \<in> set (userProjects u'))"
proof -
  let ?team = "\<lparr>teamFields = [(''name'', ''Engines'')], teamMembers = [1, 2 :: nat], teamProjects = [3 :: nat]\<rparr>"
  let ?project = "\<lparr>projectFields = [(''projectStatus'', ''Created'')], projectTasks = [] :: nat list,
                projectTeam = [Some (0::nat)], projectTeams = [] :: nat list\<rparr>"
  have tid: "teamId newProject = Some 0"
    by (simp add: newProject_def)
  have team: "findById (teams exampleStore) 0 = Some ?team"
    by (simp add: findById_def exampleStore_def)
  have run: "addProject_part000 exampleStore newProject =
      (fst (addProject_part000 exampleStore newProject), Inr (6, ?project))"
    by (simp add: addProject_part000_example)
  have ada: "findById (users exampleStore) 1 = Some ada" and bob: "findById (users exampleStore) 2 = Some bob"
    by (simp_all add: findById_def exampleStore_def)
  note t = addProject_reaches_team_and_members [of newProject 0 exampleStore ?team
      "fst (addProject_part000 exampleStore newProject)" 6 ?project]
  from t tid team run
  have reach: "(\<exists>team'. findById (teams (fst (addProject_part000 exampleStore newProject))) 0 = Some team'
          \<and> 6 \<in> set (teamProjects team'))
      \<and> (\<forall>uid \<in> set (teamMembers ?team). \<forall>u. findById (users exampleStore) uid = Some u \<longrightarrow>
            (\<exists>u'. findById (users (fst (addProject_part000 exampleStore newProject))) uid = Some u'
               \<and> 6 \<in> set (userProjects u')))"
    by blast
  from reach ada bob
  have "(\<exists>u'. findById (users (fst (addProject_part000 exampleStore newProject))) 1 = Some u'
          \<and> 6 \<in> set (userProjects u'))"
    and "(\<exists>u'. findById (users (fst (addProject_part000 exampleStore newProject))) 2 = Some u'
          \<and> 6 \<in> set (userProjects u'))"
    by simp_all
  moreover have "\<exists>project. snd (addProject_part000 exampleStore newProject) = Inr (6, project)"
    by (simp add: addProject_part000_example)
  ultimately show ?thesis
    using reach tid team by simp
qed

subsection \<open>Task identifiers are handed out once\<close>

lemma taskRefsIssued_iff:
  "taskRefsIssued st \<longleftrightarrow>
     (\<forall>(i, t) \<in> set (tasks st). i < nextId st) \<and>
     (\<forall>(i, p) \<in> set (projects st). \<forall>t \<in> set (projectTasks p). t < nextId st) \<and>
     (\<forall>(i, u) \<in> set (users st). \<forall>t \<in> set (userTasks u). t < nextId st)"
  by (simp add: taskRefsIssued_def list_all_iff)

lemma emptyStore_issued: "taskRefsIssued emptyStore"
  by (simp add: taskRefsIssued_def emptyStore_def)

lemma exampleStore_issued: "taskRefsIssued exampleStore"
  by (simp add: taskRefsIssued_def exampleStore_def ada_def bob_def)

lemma set_pushProject_fold:
  "y \<in> set (foldl (pushProject pid) c found) \<Longrightarrow>
     \<exists>z \<in> set c \<union> set found. userTasks (snd y) = userTasks (snd z)"
proof (induction found arbitrary: c)
  case Nil
  then show ?case by auto
next
  case (Cons x xs)
  from Cons.IH [of "pushProject pid c x"] Cons.prems
  obtain z where z: "z \<in> set (pushProject pid c x) \<union> set xs" "userTasks (snd y) = userTasks (snd z)"
    by auto
  show ?case
  proof (cases "z \<in> set xs")
    case True
    with z show ?thesis by auto
  next
    case False
    with z have "z \<in> set (pushProject pid c x)" by simp
    then have "z = (fst x, (snd x)\<lparr>userProjects := userProjects (snd x) @ [pid]\<rparr>) \<or> z \<in> set c"
      unfolding pushProject_def by (rule set_save)
    with z(2) show ?thesis by auto
  qed
qed

lemma issued_addTask_part000: "taskRefsIssued st \<Longrightarrow> taskRefsIssued (fst (addTask_part000 st projectId input))"
  by (fastforce simp add: taskRefsIssued_iff addTask_part000_def createTask_def Let_def
      split: option.splits dest!: set_save dest: findById_mem)

lemma issued_addTask_resolvers: "taskRefsIssued st \<Longrightarrow> taskRefsIssued (fst (addTask_resolvers st projectId input))"
  by (fastforce simp add: taskRefsIssued_iff addTask_resolvers_def createTask_def Let_def
      split: option.splits dest!: set_save dest: findById_mem)

lemma issued_addProject_resolvers:
  "taskRefsIssued st \<Longrightarrow> taskRefsIssued (fst (addProject_resolvers st input))"
  by (fastforce simp add: taskRefsIssued_iff addProject_resolvers_def createProject_def Let_def
      dest!: set_save dest: set_findIn)

lemma issued_addProject_part000:
  assumes "taskRefsIssued st"
  shows "taskRefsIssued (fst (addProject_part000 st input))"
proof -
  have users: "\<forall>(i, u) \<in> set (foldl (pushProject pid) (users st) (findIn (users st) ids)).
      \<forall>t \<in> set (userTasks u). t < Suc (nextId st)" for pid ids
  proof -
    {
      fix y t
      assume y: "y \<in> set (foldl (pushProject pid) (users st) (findIn (users st) ids))"
        and t: "t \<in> set (userTasks (snd y))"
      from set_pushProject_fold [OF y] obtain z
        where "z \<in> set (users st)" "userTasks (snd y) = userTasks (snd z)"
        by (auto dest: set_findIn)
      with assms t have "t < nextId st"
        by (fastforce simp: taskRefsIssued_iff)
      then have "t < Suc (nextId st)" by simp
    }
    then show ?thesis by fastforce
  qed
  from assms have rest: "\<forall>(i, t) \<in> set (tasks st). i < Suc (nextId st)"
    "\<forall>(i, p) \<in> set (projects st). \<forall>t \<in> set (projectTasks p). t < Suc (nextId st)"
    "\<forall>(i, u) \<in> set (users st). \<forall>t \<in> set (userTasks u). t < Suc (nextId st)"
    by (fastforce simp: taskRefsIssued_iff)+
  show ?thesis
    using rest users
    by (auto simp add: taskRefsIssued_iff addProject_part000_def createProject_def Let_def
        split: option.splits)
qed

lemma issued_updateTask_resolvers:
  "taskRefsIssued st \<Longrightarrow> taskRefsIssued (fst (updateTask_resolvers st taskId input))"
  by (fastforce simp add: taskRefsIssued_iff updateTask_resolvers_def findOneAndUpdate_def
      split: option.splits dest!: set_save dest: findById_mem)

lemma issued_updateTask_part000:
  "taskRefsIssued st \<Longrightarrow> taskRefsIssued (fst (updateTask_part000 st taskId input))"
  by (fastforce simp add: taskRefsIssued_iff updateTask_part000_def findOneAndUpdate_def Let_def
      split: option.splits dest!: set_save dest: findById_mem)

lemma userTasks_setUser: "userTasks (setUser input u) = userTasks u"
  by (simp add: setUser_def)

lemma issued_updateUser_resolvers:
  "taskRefsIssued st \<Longrightarrow> taskRefsIssued (fst (updateUser_resolvers st userId input))"
  by (fastforce simp add: taskRefsIssued_iff updateUser_resolvers_def findOneAndUpdate_def
      userTasks_setUser split: option.splits dest!: set_save dest: findById_mem)

lemma issued_updateUser_part000:
  "taskRefsIssued st \<Longrightarrow> taskRefsIssued (fst (updateUser_part000 hash st userId input))"
  by (fastforce simp add: taskRefsIssued_iff updateUser_part000_def findOneAndUpdate_def Let_def
      userTasks_setUser split: option.splits dest!: set_save dest: findById_mem)

lemma issued_remove:
  assumes "taskRefsIssued st"
  shows "taskRefsIssued (fst (removeUser st i))"
    and "taskRefsIssued (fst (removeProject st i))"
    and "taskRefsIssued (fst (removeTask st i))"
  using assms
  by (fastforce simp add: taskRefsIssued_iff removeUser_def removeProject_def removeTask_def
      findOneAndDelete_def split: option.splits idArg.splits dest: set_deleteOne)+

subsection \<open>\<open>addTask\<close> and the two task lists\<close>

lemma fresh_for_project:
  "taskRefsIssued st \<Longrightarrow> findById (projects st) i = Some p \<Longrightarrow> count_list (projectTasks p) (nextId st) = 0"
  by (fastforce simp: taskRefsIssued_iff dest: findById_mem)

lemma fresh_for_user:
  "taskRefsIssued st \<Longrightarrow> findById (users st) i = Some u \<Longrightarrow> count_list (userTasks u) (nextId st) = 0"
  by (fastforce simp: taskRefsIssued_iff dest: findById_mem)

lemma addTask_part000_links:
  assumes "taskRefsIssued st"
    and "addTask_part000 st projectId input = (st', Inr (created, assignee))"
  shows "fst created = nextId st"
    and "\<exists>p. findById (projects st') projectId = Some p \<and> count_list (projectTasks p) (fst created) = 1"
    and "\<exists>u. findById (users st') (assignedUserId input) = Some u \<and> count_list (userTasks u) (fst created) = 1"
    and "map_option assignedUser (findById (tasks st') (fst created)) = Some (Some (assignedUserId input))"
  using assms
  by (auto simp add: addTask_part000_def createTask_def Let_def findById_save fresh_for_project
      fresh_for_user split: option.splits)

lemma addTask_resolvers_links:
  assumes "taskRefsIssued st"
    and "addTask_resolvers st projectId input = (st', Inr (created, assignee))"
  shows "fst created = nextId st"
    and "\<exists>p. findById (projects st') projectId = Some p \<and> count_list (projectTasks p) (fst created) = 1"
    and "users st' = users st"
  using assms
  by (auto simp add: addTask_resolvers_def createTask_def Let_def findById_save fresh_for_project
      split: option.splits)

lemma addTask_part000_example:
  "addTask_part000 exampleStore 3 newTask =
     (exampleStore
        \<lparr>users := [(1, ada\<lparr>userTasks := [4, 6]\<rparr>), (2, bob)],
         projects :=
           [(3, \<lparr>projectFields = [(''projectStatus'', ''Pending'')], projectTasks = [4, 5, 6],
                 projectTeam = [Some 0], projectTeams = []\<rparr>)],
         tasks :=
           [(4, \<lparr>taskFields = [(''taskStatus'', ''Pending'')], assignedUser = Some 1\<rparr>),
            (5, \<lparr>taskFields = [(''taskStatus'', ''Created'')], assignedUser = Some 2\<rparr>),
            (6, \<lparr>taskFields = [(''taskStatus'', ''Created'')], assignedUser = Some 1\<rparr>)],
         nextId := 7\<rparr>,
      Inr ((6, \<lparr>taskFields = [(''taskStatus'', ''Created'')], assignedUser = Some 1\<rparr>),
           (1, ada\<lparr>userTasks := [4, 6]\<rparr>)))"
  by (simp add: addTask_part000_def createTask_def findById_def save_def exampleStore_def Let_def
      newTask_def ada_def bob_def)

lemma addTask_resolvers_example:
  "addTask_resolvers exampleStore 3 newTask =
     (exampleStore
        \<lparr>projects :=
           [(3, \<lparr>projectFields = [(''projectStatus'', ''Pending'')], projectTasks = [4, 5, 6],
                 projectTeam = [Some 0], projectTeams = []\<rparr>)],
         tasks :=
           [(4, \<lparr>taskFields = [(''taskStatus'', ''Pending'')], assignedUser = Some 1\<rparr>),
            (5, \<lparr>taskFields = [(''taskStatus'', ''Created'')], assignedUser = Some 2\<rparr>),
            (6, \<lparr>taskFields = [(''taskStatus'', ''Created'')], assignedUser = None\<rparr>)],
         nextId := 7\<rparr>,
      Inr ((6, \<lparr>taskFields = [(''taskStatus'', ''Created'')], assignedUser = None\<rparr>),
           Some (1, ada)))"
  by (simp add: addTask_resolvers_def createTask_def findById_def save_def exampleStore_def Let_def
      newTask_def ada_def bob_def)

text \<open>
  Claim C1 as stated, at the first file's \<open>addTask\<close>: the call for project 3 and user 1
  succeeds with the new task 6, and user 1's task list is \<open>[4]\<close> afterwards: the task's
  identifier appears in it not once but never.
\<close>

theorem addTask_resolvers_skips_user:
  "snd (addTask_resolvers exampleStore 3 newTask)
     = Inr ((6, \<lparr>taskFields = [(''taskStatus'', ''Created'')], assignedUser = None\<rparr>), Some (1, ada))
   \<and> map_option userTasks (findById (users (fst (addTask_resolvers exampleStore 3 newTask))) 1) = Some [4]
   \<and> count_list [4] (6::nat) = 0"
  by (simp add: addTask_resolvers_example) (simp add: findById_def exampleStore_def ada_def)

text \<open>
  Claim C1, amended. In a store whose task identifiers were all handed out by the store,
  after every successful \<open>addTask\<close> call the created task's identifier appears exactly
  once in the parent project's task list, in both files, and after every successful call
  of the second file's \<open>addTask\<close> exactly once in the assigned user's task list as well.
\<close>

theorem addTask_links_once:
  "taskRefsIssued st \<Longrightarrow>
     (addTask_part000 st projectId input = (st', Inr (created, assignee)) \<longrightarrow>
        (\<exists>p. findById (projects st') projectId = Some p \<and> count_list (projectTasks p) (fst created) = 1)
        \<and> (\<exists>u. findById (users st') (assignedUserId input) = Some u
               \<and> count_list (userTasks u) (fst created) = 1))
     \<and> (addTask_resolvers st projectId input = (st'', Inr (created', assignee')) \<longrightarrow>
        (\<exists>p. findById (projects st'') projectId = Some p \<and> count_list (projectTasks p) (fst created') = 1))"
  using addTask_part000_links(2,3) [of st projectId input st' created assignee]
    addTask_resolvers_links(2) [of st projectId input st'' created' assignee']
  by blast

theorem addTask_links_once_witness:
  "taskRefsIssued exampleStore
   \<and> snd (addTask_part000 exampleStore 3 newTask)
       = Inr ((6, \<lparr>taskFields = [(''taskStatus'', ''Created'')], assignedUser = Some 1\<rparr>),
              (1, ada\<lparr>userTasks := [4, 6]\<rparr>))
   \<and> snd (addTask_resolvers exampleStore 3 newTask)
       = Inr ((6, \<lparr>taskFields = [(''taskStatus'', ''Created'')], assignedUser = None\<rparr>), Some (1, ada))
   \<and> (\<exists>p. findById (projects (fst (addTask_part000 exampleStore 3 newTask))) 3 = Some p
          \<and> count_list (projectTasks p) 6 = 1)
   \<and> (\<exists>u. findById (users (fst (addTask_part000 exampleStore 3 newTask))) 1 = Some u
          \<and> count_list (userTasks u) 6 = 1)
   \<and> (\<exists>p. findById (projects (fst (addTask_resolvers exampleStore 3 newTask))) 3 = Some p
          \<and> count_list (projectTasks p) 6 = 1)"
proof -
  let ?t1 = "\<lparr>taskFields = [(''taskStatus'', ''Created'')], assignedUser = Some (1::nat)\<rparr>"
  let ?t0 = "\<lparr>taskFields = [(''taskStatus'', ''Created'')], assignedUser = None :: nat option\<rparr>"
  have u: "assignedUserId newTask = 1"
    by (simp add: newTask_def)
  have a: "addTask_part000 exampleStore 3 newTask =
      (fst (addTask_part000 exampleStore 3 newTask), Inr ((6, ?t1), (1, ada\<lparr>userTasks := [4, 6]\<rparr>)))"
    by (simp add: addTask_part000_example)
  have b: "addTask_resolvers exampleStore 3 newTask =
      (fst (addTask_resolvers exampleStore 3 newTask), Inr ((6, ?t0), Some (1, ada)))"
    by (simp add: addTask_resolvers_example)
  note t = addTask_links_once [OF exampleStore_issued, of 3 newTask
      "fst (addTask_part000 exampleStore 3 newTask)" "(6, ?t1)" "(1, ada\<lparr>userTasks := [4, 6]\<rparr>)"
      "fst (addTask_resolvers exampleStore 3 newTask)" "(6, ?t0)" "Some (1, ada)"]
  from t a have p: "(\<exists>p. findById (projects (fst (addTask_part000 exampleStore 3 newTask))) 3 = Some p
          \<and> count_list (projectTasks p) (fst (6::nat, ?t1)) = 1)
      \<and> (\<exists>u. findById (users (fst (addTask_part000 exampleStore 3 newTask))) (assignedUserId newTask) = Some u
          \<and> count_list (userTasks u) (fst (6::nat, ?t1)) = 1)"
    by blast
  from t b have q: "\<exists>p. findById (projects (fst (addTask_resolvers exampleStore 3 newTask))) 3 = Some p
          \<and> count_list (projectTasks p) (fst (6::nat, ?t0)) = 1"
    by blast
  have "snd (addTask_part000 exampleStore 3 newTask) = Inr ((6, ?t1), (1, ada\<lparr>userTasks := [4, 6]\<rparr>))"
    and "snd (addTask_resolvers exampleStore 3 newTask) = Inr ((6, ?t0), Some (1, ada))"
    by (simp_all add: addTask_part000_example addTask_resolvers_example)
  with p q show ?thesis
    by (simp add: u exampleStore_issued)
qed

subsection \<open>\<open>updateTask\<close> and the assignee\<close>




text \<open>The second file's \<open>updateTask\<close> still applies the rest of the patch.\<close>

lemma updateTask_part000_example:
  "updateTask_part000 exampleStore 4 \<lparr>tpFields = [(''taskStatus'', ''Completed'')], tpAssignedUser = Some 2\<rparr>
     = (exampleStore
          \<lparr>tasks :=
             [(4, \<lparr>taskFields = [(''taskStatus'', ''Completed'')], assignedUser = Some 1\<rparr>),
              (5, \<lparr>taskFields = [(''taskStatus'', ''Created'')], assignedUser = Some 2\<rparr>)]\<rparr>,
        Inr (Some \<lparr>taskFields = [(''taskStatus'', ''Completed'')], assignedUser = Some 1\<rparr>))"
  by (simp add: updateTask_part000_def findOneAndUpdate_def findById_def save_def setTask_def
      setFields_def exampleStore_def Let_def)

subsection \<open>The query \<open>tasks\<close> and the session\<close>

text \<open>
  Claim C5 as stated, at both files. With no user in the session the second file's
  \<open>tasks\<close> ends in the error \<open>Error('Failed to fetch tasks')\<close>, which is not the
  authentication error: the \<open>catch\<close> of the resolver replaces what the check threw. The
  first file's \<open>tasks\<close> takes no session and returns every task, those of user 1 and
  of user 2 alike.
\<close>

theorem tasks_without_session:
  "tasks_part000 None exampleStore = Inl (Error ''Failed to fetch tasks'')
   \<and> tasks_resolvers exampleStore =
       [(4, \<lparr>taskFields = [(''taskStatus'', ''Pending'')], assignedUser = Some 1\<rparr>),
        (5, \<lparr>taskFields = [(''taskStatus'', ''Created'')], assignedUser = Some 2\<rparr>)]"
  by (simp add: tasks_part000_def tasks_try_def tasks_resolvers_def exampleStore_def)

text \<open>
  Claim C5, amended. The second file's \<open>tasks\<close> returns, for a user in the session,
  exactly the tasks whose \<open>assignedUser\<close> is that user, and fails with no result when
  there is no user in the session. The first file's \<open>tasks\<close> returns every task.
\<close>

theorem tasks_of_session_user:
  "tasks_part000 (Some uid) st = Inr (filter (\<lambda>(i, t). assignedUser t = Some uid) (tasks st))
   \<and> isl (tasks_part000 None st)
   \<and> tasks_resolvers st = tasks st"
  by (simp add: tasks_part000_def tasks_try_def tasks_resolvers_def)

text \<open>The check inside the \<open>try\<close> block throws the authentication error it names, and
  \<open>me\<close>, which has no \<open>try\<close> around its check, lets the sentinel through.\<close>

lemma tasks_try_unauthenticated: "tasks_try None st = Inl AuthenticationError"
  by (simp add: tasks_try_def)

lemma me_unauthenticated: "me_part000 None st = Inl AuthenticationError"
  by (simp add: me_part000_def)

end
